theory Spec2Isabelle
  imports Complex_Main
begin

section \<open>Data model of the upload-and-loop anomaly detector\<close>

text \<open>
  The development embeds the detection pipeline of \<^verbatim>\<open>src/ui/App.tsx\<close> (component
  \<^verbatim>\<open>UploadLoopPlayer\<close>) and the embedding detector of \<^verbatim>\<open>src/ui/ai.ts\<close>
  (\<^verbatim>\<open>createVideoAnomalyDetector\<close>). JavaScript numbers are modelled as integers
  where the code keeps them integral (millisecond time stamps, counters, pixel bytes, box
  coordinates) and as reals otherwise. In the height of the analysis canvas, the frame score,
  the threshold controller and the box smoothing every double operation is followed by the
  rounding operator \<open>fl\<close> below; elsewhere (buffer mean, cosine distance, the sums of the
  guards and of the exit threshold) the arithmetic is that of the reals.
  React refs and component state are fields of one state record; every callback takes the
  state and returns the new state together with the events it dispatched. A callback reads
  component state through the closure of the render that created it: the values it captured
  are a \<open>closure\<close> record, held by the state for the animation-frame callback and by the
  live detector for its \<^verbatim>\<open>onScore\<close> callback.
\<close>

subsection \<open>IEEE double rounding\<close>

text \<open>Rounding to the nearest integer, ties to even.\<close>

definition round_even :: "real \<Rightarrow> int" where
  "round_even x =
     (let f = \<lfloor>x\<rfloor>; r = x - of_int f
      in if r < 1 / 2 then f else if r > 1 / 2 then f + 1 else if even f then f else f + 1)"

text \<open>The exponent \<open>e\<close> with \<open>2\<^sup>e \<le> |x| < 2\<^sup>e\<^sup>+\<^sup>1\<close>.\<close>

definition binade :: "real \<Rightarrow> int" where
  "binade x = \<lfloor>log 2 \<bar>x\<bar>\<rfloor>"

text \<open>\<open>fl x\<close> is the double nearest to \<open>x\<close> (53-bit significand, round to nearest, ties to
  even), the result of every correctly rounded double operation whose exact result is \<open>x\<close>
  and the value of a numeric literal \<open>x\<close>. Overflow and subnormal numbers are left out: all
  magnitudes here lie between \<open>10\<^sup>-\<^sup>4\<close> and \<open>10\<^sup>7\<close>.\<close>

definition fl :: "real \<Rightarrow> real" where
  "fl x = (if x = 0 then 0
           else of_int (round_even (x / 2 powr (of_int (binade x) - 52)))
                * 2 powr (of_int (binade x) - 52))"

text \<open>For computing \<open>fl\<close> at a given number: the number of doublings, at most \<open>f\<close>, that
  bring \<open>y\<close> up to \<open>2\<^sup>5\<^sup>2\<close>.\<close>

fun scale_up :: "nat \<Rightarrow> real \<Rightarrow> nat" where
  "scale_up 0 y = 0"
| "scale_up (Suc f) y = (if 2 ^ 52 \<le> y then 0 else Suc (scale_up f (2 * y)))"

subsection \<open>Records\<close>

record box =
  box_x :: int
  box_y :: int
  box_w :: int
  box_h :: int

text \<open>What a callback captured from the render that created it: the values of
  \<^verbatim>\<open>alertsEnabled\<close>, \<^verbatim>\<open>sensitivity\<close> and \<^verbatim>\<open>autoTune\<close> and whether the prop
  \<^verbatim>\<open>onIrregularity\<close> was set.\<close>

record closure =
  c_alertsEnabled :: bool
  c_onIrregularity :: bool
  c_sensitivity :: real
  c_autoTune :: bool

text \<open>The state kept by a live embedding detector (the \<^verbatim>\<open>let\<close> variables of
  \<^verbatim>\<open>createVideoAnomalyDetector\<close>); \<open>steps_started\<close> counts the calls of
  \<^verbatim>\<open>step()\<close> made by \<^verbatim>\<open>start\<close>, \<open>onScoreEnv\<close> is what the callback
  \<^verbatim>\<open>opts.onScore\<close> captured.\<close>

record det_state =
  running :: bool
  timer :: bool
  meanVector :: "real list option"
  sampleCount :: nat
  steps_started :: nat
  onScoreEnv :: closure

text \<open>The two objects \<^verbatim>\<open>createVideoAnomalyDetector\<close> can return: the fallback of the
  \<^verbatim>\<open>catch\<close> branch and the detector closing over a loaded model.\<close>

datatype detector = Fallback | Live det_state

datatype event =
    AiThreshold real
  | AiScore real int real
  | AiActive bool int
  | AiDetect real int
  | Irregularity real

record state =
  alertsEnabled :: bool
  onIrregularity :: bool
  sensitivity :: real
  autoTune :: bool
  analyzing :: bool
  hasMedia :: bool
  lastFire :: int
  detectorRef :: "detector option"
  scoreBuf :: "real list"
  warmup :: nat
  prevTime :: real
  loopCount :: nat
  aiReady :: bool
  sustain :: int
  active :: bool
  holdFrames :: int
  boxEma :: "box option"
  recentActivations :: "int list"
  prevActive :: bool
  detectCount :: nat
  lastScore :: real
  avg1m :: real
  startTime :: int
  recentScores :: "(int \<times> real) list"
  lastFrame :: "int list option"
  analyzeEnv :: closure

text \<open>What the callbacks of the first render capture.\<close>

definition first_render :: "bool \<Rightarrow> closure" where
  "first_render cb = \<lparr>c_alertsEnabled = True, c_onIrregularity = cb, c_sensitivity = fl 0.20,
                       c_autoTune = True\<rparr>"

text \<open>The state of a freshly mounted component (the initial values of the
  \<^verbatim>\<open>useState\<close> and \<^verbatim>\<open>useRef\<close> calls, the effect run once on these values).\<close>

definition initial :: "bool \<Rightarrow> state" where
  "initial cb = \<lparr> alertsEnabled = True, onIrregularity = cb, sensitivity = fl 0.20,
     autoTune = True, analyzing = False, hasMedia = False, lastFire = 0,
     detectorRef = None, scoreBuf = [], warmup = 0, prevTime = 0, loopCount = 0,
     aiReady = False, sustain = 0, active = False, holdFrames = 0, boxEma = None,
     recentActivations = [], prevActive = False, detectCount = 0, lastScore = 0,
     avg1m = 0, startTime = 0, recentScores = [], lastFrame = None,
     analyzeEnv = first_render cb \<rparr>"

text \<open>The values a callback created now would capture.\<close>

definition capture :: "state \<Rightarrow> closure" where
  "capture s = \<lparr>c_alertsEnabled = alertsEnabled s, c_onIrregularity = onIrregularity s,
                 c_sensitivity = sensitivity s, c_autoTune = autoTune s\<rparr>"

text \<open>What one call of \<^verbatim>\<open>analyze\<close> sees of its environment: the video element, the
  2-D context, the pixels read back from the canvas, the clock and the overlay canvas.\<close>

record tick =
  videoPresent :: bool
  readyState :: nat
  videoWidth :: nat
  videoHeight :: nat
  ctxOk :: bool
  currData :: "int list"
  clock :: int
  overlayDims :: "(nat \<times> nat) option"

section \<open>Frame differencing (App.tsx, lines 1306-1337)\<close>

definition js_round :: "real \<Rightarrow> int" where
  "js_round x = \<lfloor>x + 1 / 2\<rfloor>"

definition frame_height :: "nat \<Rightarrow> nat \<Rightarrow> nat \<Rightarrow> nat" where
  "frame_height w vw vh =
     nat (max 1 \<lfloor>fl (real (if vh = 0 then 90 else vh)
                          * fl (real w / real (max 1 (if vw = 0 then 160 else vw))))\<rfloor>)"

definition px_diff :: "int list \<Rightarrow> int list \<Rightarrow> nat \<Rightarrow> int" where
  "px_diff cur prev idx =
     \<bar>cur ! idx - prev ! idx\<bar> + \<bar>cur ! (idx + 1) - prev ! (idx + 1)\<bar> + \<bar>cur ! (idx + 2) - prev ! (idx + 2)\<bar>"

definition block_sum :: "int list \<Rightarrow> int list \<Rightarrow> nat \<Rightarrow> nat \<Rightarrow> nat \<Rightarrow> nat \<Rightarrow> int" where
  "block_sum cur prev w h bx by =
     (\<Sum>y\<leftarrow>[by..<min (by + 8) h]. \<Sum>x\<leftarrow>[bx..<min (bx + 8) w]. px_diff cur prev ((y * w + x) * 4))"

definition block_origins :: "nat \<Rightarrow> nat list" where
  "block_origins n = map (\<lambda>k. k * 8) [0..<(n + 7) div 8]"

text \<open>The accumulator of the two block loops: \<open>(diff, maxBlockSum, maxBlockX, maxBlockY)\<close>.\<close>

definition scan_step :: "int list \<Rightarrow> int list \<Rightarrow> nat \<Rightarrow> nat \<Rightarrow> nat \<times> nat \<Rightarrow>
    int \<times> int \<times> nat \<times> nat \<Rightarrow> int \<times> int \<times> nat \<times> nat" where
  "scan_step cur prev w h = (\<lambda>(by, bx) (diff, maxBlockSum, maxBlockX, maxBlockY).
     let sum = block_sum cur prev w h bx by
     in if sum > maxBlockSum then (diff + sum, sum, bx, by)
        else (diff + sum, maxBlockSum, maxBlockX, maxBlockY))"

definition scan_blocks :: "int list \<Rightarrow> int list \<Rightarrow> nat \<Rightarrow> nat \<Rightarrow> int \<times> int \<times> nat \<times> nat" where
  "scan_blocks cur prev w h =
     fold (scan_step cur prev w h) (List.product (block_origins h) (block_origins w)) (0, 0, 0, 0)"

definition saliency_score :: "int \<Rightarrow> nat \<Rightarrow> nat \<Rightarrow> real" where
  "saliency_score diff w h =
     (let norm = fl (real_of_int diff / real (w * h * 3 * 255))
      in min 1 (max 0 (fl (norm * 4))))"

section \<open>Score buffer (App.tsx, lines 1342-1344 and 1458-1460)\<close>

definition pushScore :: "real \<Rightarrow> real list \<Rightarrow> real list" where
  "pushScore score buf = (let b = buf @ [score] in if length b > 8 then tl b else b)"

definition average :: "real list \<Rightarrow> real" where
  "average buf = foldl (+) 0 buf / real (length buf)"

section \<open>One scored tick of the frame-diff path (App.tsx, lines 1342-1435)\<close>

text \<open>Rolling 60 s average for the HUD (lines 1350-1357).\<close>

definition trackRecent :: "int \<Rightarrow> real \<Rightarrow> state \<Rightarrow> state" where
  "trackRecent now avg s =
     (let cutoff = now - 60000;
          rs = dropWhile (\<lambda>e. fst e < cutoff) (recentScores s @ [(now, avg)])
      in if rs \<noteq> [] then
           s\<lparr>recentScores := rs,
             avg1m := real_of_int (js_round (foldl (\<lambda>a b. a + snd b) 0 rs / real (length rs) * 1000)) / 1000,
             lastScore := real_of_int (js_round (avg * 1000)) / 1000\<rparr>
         else s\<lparr>recentScores := rs\<rparr>)"

text \<open>Hysteresis and sustain logic (lines 1359-1370).\<close>

definition updateActivation :: "real \<Rightarrow> real \<Rightarrow> state \<Rightarrow> state" where
  "updateActivation sens avg s =
     (let entryThr = sens;
          exitThr = max 0 (sens - 0.10);
          s1 = (if avg > entryThr then s\<lparr>sustain := min 10 (sustain s + 1)\<rparr>
                else if avg < exitThr then s\<lparr>sustain := max 0 (sustain s - 1)\<rparr>
                else s);
          s2 = (if \<not> active s1 \<and> sustain s1 \<ge> 3 then s1\<lparr>active := True, holdFrames := 8\<rparr> else s1)
      in if active s2 \<and> sustain s2 = 0 then
           (if holdFrames s2 > 0 then s2\<lparr>holdFrames := holdFrames s2 - 1\<rparr>
            else s2\<lparr>active := False\<rparr>)
         else s2)"

text \<open>Overlay box of the block with the largest difference (lines 1373-1400), in double
  arithmetic. The drawing calls on the overlay canvas are not modelled. \<open>blockBox\<close> is the
  block scaled to the overlay (lines 1379-1384), \<open>ema_round\<close> one smoothed coordinate
  (lines 1385-1391).\<close>

definition blockBox :: "nat \<Rightarrow> nat \<Rightarrow> nat \<Rightarrow> nat \<Rightarrow> nat \<Rightarrow> nat \<Rightarrow> box" where
  "blockBox ovw ovh w h maxBlockX maxBlockY =
     (let scaleX = fl (real ovw / real w);
          scaleY = fl (real ovh / real h)
      in \<lparr>box_x = \<lfloor>fl (real maxBlockX * scaleX)\<rfloor>, box_y = \<lfloor>fl (real maxBlockY * scaleY)\<rfloor>,
          box_w = \<lceil>fl (8 * scaleX)\<rceil>, box_h = \<lceil>fl (8 * scaleY)\<rceil>\<rparr>)"

definition ema_round :: "int \<Rightarrow> int \<Rightarrow> int" where
  "ema_round obs prv =
     (let alpha = fl 0.35
      in js_round (fl (fl (alpha * real_of_int obs) + fl (fl (1 - alpha) * real_of_int prv))))"

definition updateBox :: "(nat \<times> nat) option \<Rightarrow> nat \<Rightarrow> nat \<Rightarrow> int \<Rightarrow> nat \<Rightarrow> nat \<Rightarrow> state \<Rightarrow> state" where
  "updateBox ov w h maxBlockSum maxBlockX maxBlockY s =
     (case ov of
        None \<Rightarrow> s
      | Some (ovw, ovh) \<Rightarrow>
          if active s \<and> maxBlockSum > 0 then
            let r = blockBox ovw ovh w h maxBlockX maxBlockY
            in (case boxEma s of
                  None \<Rightarrow> s\<lparr>boxEma := Some r\<rparr>
                | Some b \<Rightarrow> s\<lparr>boxEma := Some
                    \<lparr>box_x = ema_round (box_x r) (box_x b),
                     box_y = ema_round (box_y r) (box_y b),
                     box_w = ema_round (box_w r) (box_w b),
                     box_h = ema_round (box_h r) (box_h b)\<rparr>\<rparr>)
          else s)"

text \<open>Adaptive sensitivity (lines 1403-1420), in double arithmetic. \<open>env\<close> is the closure
  of the callback: its \<^verbatim>\<open>sensitivity\<close> is the threshold the update starts from;
  \<^verbatim>\<open>setSensitivity\<close> writes the component state.\<close>

definition autoTuneStep :: "closure \<Rightarrow> int \<Rightarrow> state \<Rightarrow> state" where
  "autoTuneStep env now s =
     (if c_autoTune env then
        let nowMs = now;
            windowMs = 10000;
            ra = filter (\<lambda>t. nowMs - t \<le> windowMs) (recentActivations s);
            ratePerSec = fl (real (length ra) / fl (real_of_int windowMs / 1000));
            target = fl 0.2;
            err = fl (ratePerSec - target);
            k = fl 0.0025;
            s' = max (fl 0.15) (min (fl 0.6) (fl (c_sensitivity env - fl (err * k))))
        in if \<bar>fl (s' - c_sensitivity env)\<bar> > fl 0.0005
           then s\<lparr>recentActivations := ra, sensitivity := s'\<rparr>
           else s\<lparr>recentActivations := ra\<rparr>
      else s)"

text \<open>Collecting activation edges (lines 1423-1427).\<close>

definition recordEdge :: "int \<Rightarrow> state \<Rightarrow> state" where
  "recordEdge now s =
     (let s1 = (if \<not> prevActive s \<and> active s then
                  s\<lparr>recentActivations :=
                      (let r = recentActivations s @ [now] in if length r > 120 then tl r else r)\<rparr>
                else s)
      in s1\<lparr>prevActive := active s1\<rparr>)"

text \<open>The detection of the frame-diff path (lines 1428-1435).\<close>

definition fireFrameDiff :: "closure \<Rightarrow> int \<Rightarrow> real \<Rightarrow> state \<Rightarrow> state \<times> event list" where
  "fireFrameDiff env now avg s =
     (if c_alertsEnabled env \<and> c_onIrregularity env \<and> active s \<and> avg > c_sensitivity env + 0.005
         \<and> now - lastFire s > 5000
      then (s\<lparr>lastFire := now, detectCount := detectCount s + 1\<rparr>, [Irregularity avg, AiDetect avg now])
      else (s, []))"

text \<open>Everything \<^verbatim>\<open>analyze\<close> does after the warm-up test, given the closure of the
  callback, the raw score and the largest block of this frame.\<close>

definition analyze_scored ::
    "closure \<Rightarrow> real \<Rightarrow> int \<Rightarrow> nat \<Rightarrow> nat \<Rightarrow> nat \<Rightarrow> nat \<Rightarrow> int \<Rightarrow> (nat \<times> nat) option \<Rightarrow> state
       \<Rightarrow> state \<times> event list" where
  "analyze_scored env score maxBlockSum maxBlockX maxBlockY w h now ov s =
     (let sens = c_sensitivity env;
          s1 = s\<lparr>scoreBuf := pushScore score (scoreBuf s)\<rparr>;
          avg = average (scoreBuf s1);
          s2 = trackRecent now avg s1;
          s3 = updateActivation sens avg s2;
          s4 = updateBox ov w h maxBlockSum maxBlockX maxBlockY s3;
          s5 = autoTuneStep env now s4;
          s6 = recordEdge now s5;
          (s7, det) = fireFrameDiff env now avg s6
      in (s7, [AiThreshold sens, AiScore avg now sens, AiActive (active s5) now] @ det))"

section \<open>The animation-frame callback (App.tsx, lines 1299-1439)\<close>

text \<open>The callback belongs to an effect with dependencies \<^verbatim>\<open>analyzing\<close>,
  \<^verbatim>\<open>hasMedia\<close> and \<^verbatim>\<open>onIrregularity\<close> (line 1443): these three are current in
  every call, the other values are those of \<open>analyzeEnv\<close>, captured when the effect last
  ran.\<close>

definition analyze :: "tick \<Rightarrow> state \<Rightarrow> state \<times> event list" where
  "analyze t s =
     (if \<not> videoPresent t \<or> \<not> hasMedia s \<or> \<not> analyzing s \<or> readyState t < 2 then (s, [])
      else if \<not> ctxOk t then (s, [])
      else
        let w = 160;
            h = frame_height w (videoWidth t) (videoHeight t);
            cur = currData t
        in case lastFrame s of
             None \<Rightarrow> (s\<lparr>lastFrame := Some cur\<rparr>, [])
           | Some prev \<Rightarrow>
               (case scan_blocks cur prev w h of (diff, maxBlockSum, maxBlockX, maxBlockY) \<Rightarrow>
                  let score = saliency_score diff w h
                  in if warmup s < 6 then (s\<lparr>warmup := warmup s + 1, lastFrame := Some cur\<rparr>, [])
                     else (case analyze_scored (analyzeEnv s) score maxBlockSum maxBlockX maxBlockY w h
                                  (clock t) (overlayDims t) s of
                             (s', ev) \<Rightarrow> (s'\<lparr>lastFrame := Some cur\<rparr>, ev))))"

text \<open>A run of the effect (lines 1294-1443): React runs it after a render in which one of its
  dependencies changed. The new callback captures the values of that render and starts with
  no previous frame (\<^verbatim>\<open>let lastFrame = null\<close>).\<close>

definition runAnalyzeEffect :: "state \<Rightarrow> state" where
  "runAnalyzeEffect s = s\<lparr>analyzeEnv := capture s, lastFrame := None\<rparr>"

section \<open>The embedding detector (ai.ts)\<close>

text \<open>The three awaited loads of lines 28-31, each of which can throw.\<close>

record loader =
  import_tf :: "string + unit"
  import_mobilenet :: "string + unit"
  mobilenet_load :: "string + unit"

definition load_model :: "loader \<Rightarrow> string + unit" where
  "load_model L =
     (case import_tf L of
        Inl err \<Rightarrow> Inl err
      | Inr _ \<Rightarrow> (case import_mobilenet L of Inl err \<Rightarrow> Inl err | Inr _ \<Rightarrow> mobilenet_load L))"

text \<open>\<^verbatim>\<open>createVideoAnomalyDetector\<close> (lines 11-91): \<open>Inl\<close> would be an exception reaching
  the caller; \<open>cb\<close> is the callback \<^verbatim>\<open>opts.onScore\<close>.\<close>

definition createVideoAnomalyDetector :: "closure \<Rightarrow> loader \<Rightarrow> string + detector" where
  "createVideoAnomalyDetector cb L =
     (case load_model L of
        Inl err \<Rightarrow> Inr Fallback
      | Inr _ \<Rightarrow> Inr (Live \<lparr>running = False, timer = False, meanVector = None,
                            sampleCount = 0, steps_started = 0, onScoreEnv = cb\<rparr>))"

fun det_start :: "detector \<Rightarrow> detector" where
  "det_start Fallback = Fallback"
| "det_start (Live d) =
     (if \<not> running d then Live (d\<lparr>running := True, steps_started := steps_started d + 1\<rparr>)
      else Live d)"

fun det_stop :: "detector \<Rightarrow> detector" where
  "det_stop Fallback = Fallback"
| "det_stop (Live d) = Live (d\<lparr>running := False, timer := False\<rparr>)"

text \<open>\<^verbatim>\<open>isReady\<close> is \<^verbatim>\<open>!!model\<close>; a model that loaded is an object, hence truthy.\<close>

fun det_isReady :: "detector \<Rightarrow> bool" where
  "det_isReady Fallback = False"
| "det_isReady (Live d) = True"

text \<open>\<^verbatim>\<open>cosineDistance\<close> (lines 44-48). The sums, the square roots and the quotient are
  taken exactly here, and so is the update of the running mean in \<^verbatim>\<open>step\<close> (which the
  code stores rounded to single precision): a score of the model is the code's up to the
  rounding of these operations, and nothing below depends on the value of the mean.\<close>

definition cosineDistance :: "real list \<Rightarrow> real list \<Rightarrow> real" where
  "cosineDistance a b =
     (case fold (\<lambda>i (dot, na, nb). let x = a ! i; y = b ! i in (dot + x * y, na + x * x, nb + y * y))
             [0..<length a] (0, 0, 0) of
        (dot, na, nb) \<Rightarrow> 1 - dot / (sqrt na * sqrt nb + 1 / 10 ^ 8))"

text \<open>One run of \<^verbatim>\<open>step\<close> (lines 50-84) on the outcome of the inference, taken as one
  atomic transition; the result is the score handed to \<^verbatim>\<open>onScore\<close>, if any.\<close>

definition det_step :: "string + real list \<Rightarrow> det_state \<Rightarrow> det_state \<times> real option" where
  "det_step inferred d =
     (if \<not> running d then (d, None)
      else case inferred of
        Inl err \<Rightarrow> (d\<lparr>timer := True\<rparr>, None)
      | Inr emb \<Rightarrow>
          (case meanVector d of
             None \<Rightarrow> (d\<lparr>meanVector := Some emb, sampleCount := 1, timer := True\<rparr>, Some 0)
           | Some m \<Rightarrow>
               (let lr = 0.02
                in (d\<lparr>meanVector := Some (map (\<lambda>i. (1 - lr) * m ! i + lr * emb ! i) [0..<length m]),
                      sampleCount := sampleCount d + 1, timer := True\<rparr>,
                    Some (cosineDistance emb m)))))"

section \<open>The embedding path in the component (App.tsx, lines 1446-1477)\<close>

text \<open>The \<^verbatim>\<open>onScore\<close> callback handed to the detector (lines 1455-1468), with the
  closure \<open>env\<close> of the render that created the detector; the successive readings of
  \<^verbatim>\<open>Date.now()\<close> are taken at one instant \<open>now\<close>.\<close>

definition onScore :: "closure \<Rightarrow> real \<Rightarrow> int \<Rightarrow> state \<Rightarrow> state \<times> event list" where
  "onScore env score now s =
     (if warmup s < 6 then (s\<lparr>warmup := warmup s + 1\<rparr>, [])
      else
        let s1 = s\<lparr>scoreBuf := pushScore score (scoreBuf s)\<rparr>;
            avg = average (scoreBuf s1)
        in if c_alertsEnabled env \<and> c_onIrregularity env \<and> avg > c_sensitivity env + 0.01
              \<and> now - lastFire s1 > 8000
           then (s1\<lparr>lastFire := now, detectCount := detectCount s1 + 1\<rparr>, [Irregularity avg, AiDetect avg now])
           else (s1, []))"

definition maybeInit :: "bool \<Rightarrow> loader \<Rightarrow> state \<Rightarrow> string + state" where
  "maybeInit v L s =
     (if \<not> v \<or> \<not> hasMedia s \<or> \<not> analyzing s then Inr s
      else case detectorRef s of
        None \<Rightarrow>
          (case createVideoAnomalyDetector (capture s) L of
             Inl err \<Rightarrow> Inl err
           | Inr d \<Rightarrow> Inr (s\<lparr>detectorRef := Some (det_start d), aiReady := det_isReady d\<rparr>))
      | Some d \<Rightarrow> Inr (s\<lparr>detectorRef := Some (det_start d)\<rparr>))"

text \<open>A timer tick of the detector as the component sees it: the detector steps and, when it
  produced a score, calls \<^verbatim>\<open>onScore\<close>.\<close>

definition embeddingTick :: "string + real list \<Rightarrow> int \<Rightarrow> state \<Rightarrow> state \<times> event list" where
  "embeddingTick inferred now s =
     (case detectorRef s of
        Some (Live d) \<Rightarrow>
          (case det_step inferred d of
             (d', None) \<Rightarrow> (s\<lparr>detectorRef := Some (Live d')\<rparr>, [])
           | (d', Some score) \<Rightarrow> onScore (onScoreEnv d') score now (s\<lparr>detectorRef := Some (Live d')\<rparr>))
      | _ \<Rightarrow> (s, []))"

section \<open>Reset and the video element's handlers (App.tsx, lines 1479-1518)\<close>

definition resetForLoop :: "int \<Rightarrow> state \<Rightarrow> state \<times> event list" where
  "resetForLoop now s =
     (s\<lparr>warmup := 0, scoreBuf := [], lastFire := 0, sustain := 0, active := False,
        holdFrames := 0, boxEma := None, recentActivations := [], recentScores := [],
        startTime := now, detectCount := 0, lastScore := 0, avg1m := 0,
        detectorRef := map_option (\<lambda>d. det_start (det_stop d)) (detectorRef s)\<rparr>,
      [AiActive False now])"





section \<open>Runs of the pipeline\<close>

text \<open>Feeding a sequence of smoothed samples to the activation state machine at a fixed
  entry threshold.\<close>

definition feed :: "real \<Rightarrow> real list \<Rightarrow> state \<Rightarrow> state" where
  "feed sens avgs s = fold (updateActivation sens) avgs s"

text \<open>\<open>run_above sens n k xs\<close>: counting from a current run of \<open>k\<close>, the samples \<open>xs\<close>
  contain \<open>n\<close> consecutive values strictly above \<open>sens\<close>.\<close>

fun run_above :: "real \<Rightarrow> nat \<Rightarrow> nat \<Rightarrow> real list \<Rightarrow> bool" where
  "run_above sens n k [] = (n \<le> k)"
| "run_above sens n k (x # xs) = (n \<le> k \<or> run_above sens n (if x > sens then Suc k else 0) xs)"






text \<open>A tick of \<^verbatim>\<open>analyze\<close> that gets as far as scoring: the video and the context are
  there, a previous frame is held and the warm-up is over.\<close>

definition scored_tick :: "tick \<Rightarrow> state \<Rightarrow> bool" where
  "scored_tick t s \<longleftrightarrow>
     videoPresent t \<and> hasMedia s \<and> analyzing s \<and> 2 \<le> readyState t \<and> ctxOk t
     \<and> lastFrame s \<noteq> None \<and> 6 \<le> warmup s"

text \<open>The state a reset is claimed to force: inactive, counters at 0, every rolling buffer
  empty.\<close>

definition cleared :: "state \<Rightarrow> bool" where
  "cleared s \<longleftrightarrow>
     \<not> active s \<and> sustain s = 0 \<and> holdFrames s = 0 \<and> scoreBuf s = []
     \<and> recentActivations s = [] \<and> recentScores s = [] \<and> boxEma s = None \<and> warmup s = 0"

text \<open>Sequences of calls on a detector object.\<close>

datatype det_op = Start | Stop

fun det_apply :: "det_op \<Rightarrow> detector \<Rightarrow> detector" where
  "det_apply Start d = det_start d"
| "det_apply Stop d = det_stop d"

text \<open>Runs of the component: animation frames, scores delivered by the live detector to
  its callback, resets and runs of the effect, in the order they happen. A run collects the
  time stamps of the \<^verbatim>\<open>ai-detect\<close> events together with the path that raised them.\<close>

datatype source = FrameDiff | Embedding

datatype input = Frame tick | EmbScore real int | Reset int | Effect

fun detections :: "event list \<Rightarrow> int list" where
  "detections [] = []"
| "detections (AiDetect a ts # ev) = ts # detections ev"
| "detections (e # ev) = detections ev"

definition step :: "input \<Rightarrow> state \<Rightarrow> state \<times> (source \<times> int) list" where
  "step i s =
     (case i of
        Frame t \<Rightarrow> (case analyze t s of (s', ev) \<Rightarrow> (s', map (Pair FrameDiff) (detections ev)))
      | EmbScore score now \<Rightarrow>
          (case detectorRef s of
             Some (Live d) \<Rightarrow>
               (case onScore (onScoreEnv d) score now s of
                  (s', ev) \<Rightarrow> (s', map (Pair Embedding) (detections ev)))
           | _ \<Rightarrow> (s, []))
      | Reset now \<Rightarrow> (fst (resetForLoop now s), [])
      | Effect \<Rightarrow> (runAnalyzeEffect s, []))"

fun run :: "input list \<Rightarrow> state \<Rightarrow> state \<times> (source \<times> int) list" where
  "run [] s = (s, [])"
| "run (i # ins) s =
     (case step i s of (s', ds) \<Rightarrow> (case run ins s' of (s'', ds') \<Rightarrow> (s'', ds @ ds')))"

fun is_reset :: "input \<Rightarrow> bool" where
  "is_reset (Reset now) = True"
| "is_reset i = False"

fun cooldown :: "source \<Rightarrow> int" where
  "cooldown FrameDiff = 5000"
| "cooldown Embedding = 8000"

text \<open>\<open>spaced lf ds\<close>: each detection of \<open>ds\<close> comes more than the cooldown of its own path
  after the detection before it, whichever path raised that one; \<open>lf\<close> is the time of the
  last detection before \<open>ds\<close>.\<close>

fun spaced :: "int \<Rightarrow> (source \<times> int) list \<Rightarrow> bool" where
  "spaced lf [] = True"
| "spaced lf (d # ds) = (snd d - lf > cooldown (fst d) \<and> spaced (snd d) ds)"

section \<open>Double rounding\<close>

text \<open>\<open>fl_eval\<close> computes \<open>fl\<close> at a given number once the scaling \<open>2\<^sup>n\<close> that brings it
  into \<open>[2\<^sup>5\<^sup>2, 2\<^sup>5\<^sup>3)\<close> is named; \<open>fl_error\<close> is the relative error bound.\<close>

lemma round_even_near: "\<bar>of_int (round_even x) - x\<bar> \<le> 1 / 2"
  unfolding round_even_def Let_def by (auto; linarith)

lemma round_even_int [simp]: "round_even (of_int k) = k"
  by (simp add: round_even_def)

lemma binade_eq:
  assumes "x \<noteq> 0" "2 ^ 52 \<le> \<bar>x\<bar> * 2 ^ n" "\<bar>x\<bar> * 2 ^ n < 2 ^ 53"
  shows "of_int (binade x) - 52 = - real n"
proof -
  have pos: "0 < \<bar>x\<bar>" using assms(1) by simp
  have p: "(2::real) powr (52 - real n) = 2 ^ 52 / 2 ^ n"
    by (simp add: powr_diff powr_realpow)
  have q: "(2::real) powr (52 - real n + 1) = 2 ^ 53 / 2 ^ n"
    by (simp add: powr_diff powr_add powr_realpow)
  have "\<lfloor>log 2 \<bar>x\<bar>\<rfloor> = 52 - int n"
  proof -
    have a: "2 ^ 52 / 2 ^ n \<le> \<bar>x\<bar>" using assms(2) by (simp add: field_simps)
    have b: "\<bar>x\<bar> < 2 ^ 53 / 2 ^ n" using assms(3) by (simp add: field_simps)
    have "real_of_int (52 - int n) = 52 - real n" "real_of_int (52 - int n + 1) = 52 - real n + 1" by simp_all
    with a b p q have "2 powr (of_int (52 - int n)) \<le> \<bar>x\<bar> \<and> \<bar>x\<bar> < 2 powr (of_int (52 - int n + 1))"
      by (simp only:)
    then show ?thesis using floor_log_eq_powr_iff[OF pos, of 2 "52 - int n"] by simp
  qed
  then show ?thesis by (simp add: binade_def)
qed

lemma fl_eval:
  assumes "2 ^ 52 \<le> \<bar>x\<bar> * 2 ^ n" "\<bar>x\<bar> * 2 ^ n < 2 ^ 53" "round_even (x * 2 ^ n) = m"
  shows "fl x = of_int m / 2 ^ n"
proof -
  have nz: "x \<noteq> 0" using assms(1) by auto
  have e: "of_int (binade x) - 52 = - real n" by (rule binade_eq[OF nz assms(1,2)])
  have pw: "(2::real) powr (- real n) = 1 / 2 ^ n" by (simp add: powr_minus powr_realpow divide_inverse)
  show ?thesis using nz assms(3) by (simp add: fl_def e pw)
qed

lemma fl_error: "\<bar>fl x - x\<bar> \<le> \<bar>x\<bar> / 2 ^ 53"
proof (cases "x = 0")
  case True
  then show ?thesis by (simp add: fl_def)
next
  case False
  define e where "e = binade x"
  define q where "q = (2::real) powr (of_int e - 52)"
  have qpos: "0 < q" by (simp add: q_def)
  have pos: "0 < \<bar>x\<bar>" using False by simp
  have "2 powr (of_int e) \<le> \<bar>x\<bar>"
    using floor_log_eq_powr_iff[OF pos, of 2 e] by (simp add: e_def binade_def)
  moreover have "q = 2 powr (of_int e) / 2 ^ 52" by (simp add: q_def powr_diff)
  ultimately have qle: "q * 2 ^ 52 \<le> \<bar>x\<bar>" by simp
  have "fl x - x = (of_int (round_even (x / q)) - x / q) * q"
    using False qpos by (simp add: fl_def e_def q_def field_simps)
  then have "\<bar>fl x - x\<bar> = \<bar>of_int (round_even (x / q)) - x / q\<bar> * q"
    using qpos by (simp add: abs_mult)
  also have "\<dots> \<le> (1 / 2) * q" using round_even_near[of "x / q"] qpos by (intro mult_right_mono) simp_all
  also have "\<dots> \<le> \<bar>x\<bar> / 2 ^ 53" using qle by simp
  finally show ?thesis .
qed

lemma scale_up_range:
  "0 < y \<Longrightarrow> y < 2 ^ 53 \<Longrightarrow> 2 ^ 52 \<le> y * 2 ^ f \<Longrightarrow>
   2 ^ 52 \<le> y * 2 ^ scale_up f y \<and> y * 2 ^ scale_up f y < 2 ^ 53"
proof (induction f arbitrary: y)
  case 0
  then show ?case by simp
next
  case (Suc f)
  show ?case
  proof (cases "2 ^ 52 \<le> y")
    case True
    with Suc.prems show ?thesis by simp
  next
    case False
    then have "2 * y < 2 ^ 53" by simp
    moreover have "0 < 2 * y" using Suc.prems(1) by simp
    moreover have "2 ^ 52 \<le> 2 * y * 2 ^ f" using Suc.prems(3) by (simp add: mult.assoc mult.left_commute)
    ultimately have "2 ^ 52 \<le> 2 * y * 2 ^ scale_up f (2 * y) \<and> 2 * y * 2 ^ scale_up f (2 * y) < 2 ^ 53"
      by (intro Suc.IH)
    with False show ?thesis by (simp add: mult.assoc mult.left_commute)
  qed
qed

lemma fl_exec:
  assumes "x \<noteq> 0" "\<bar>x\<bar> < 2 ^ 53" "2 ^ 52 \<le> \<bar>x\<bar> * 2 ^ f"
  shows "fl x = of_int (round_even (x * 2 ^ scale_up f \<bar>x\<bar>)) / 2 ^ scale_up f \<bar>x\<bar>"
proof -
  have "0 < \<bar>x\<bar>" using assms(1) by simp
  from scale_up_range[OF this assms(2,3)] show ?thesis
    by (intro fl_eval) simp_all
qed

lemma scale_up_numeral:
  "scale_up (numeral k) y = (if 2 ^ 52 \<le> y then 0 else Suc (scale_up (pred_numeral k) (2 * y)))"
  by (simp add: numeral_eq_Suc)

lemmas fl_compute = fl_exec[where f = 80] scale_up_numeral round_even_def Let_def

lemma fl_0 [simp]: "fl 0 = 0"
  by (simp add: fl_def)

lemma fl_lit_0_2: "fl (1 / 5) = 3602879701896397 / 2 ^ 54"
  by (simp add: fl_compute)

lemma fl_lit_0_35: "fl (7 / 20) = 3152519739159347 / 2 ^ 53"
  by (simp add: fl_compute)

lemma fl_lit_0_65: "fl (1 - fl (7 / 20)) = 5854679515581645 / 2 ^ 53"
  by (simp add: fl_compute)


section \<open>What the steps of a tick leave alone\<close>

lemma trackRecent_fields [simp]:
  "scoreBuf (trackRecent now avg s) = scoreBuf s"
  "sensitivity (trackRecent now avg s) = sensitivity s"
  "recentActivations (trackRecent now avg s) = recentActivations s"
  "lastFire (trackRecent now avg s) = lastFire s"
  "active (trackRecent now avg s) = active s"
  "sustain (trackRecent now avg s) = sustain s"
  "holdFrames (trackRecent now avg s) = holdFrames s"
  "boxEma (trackRecent now avg s) = boxEma s"
  by (simp_all add: trackRecent_def Let_def)

lemma updateActivation_fields [simp]:
  "scoreBuf (updateActivation sens avg s) = scoreBuf s"
  "sensitivity (updateActivation sens avg s) = sensitivity s"
  "recentActivations (updateActivation sens avg s) = recentActivations s"
  "lastFire (updateActivation sens avg s) = lastFire s"
  "boxEma (updateActivation sens avg s) = boxEma s"
  by (simp_all add: updateActivation_def Let_def)

lemma updateBox_fields [simp]:
  "scoreBuf (updateBox ov w h m mx my s) = scoreBuf s"
  "sensitivity (updateBox ov w h m mx my s) = sensitivity s"
  "recentActivations (updateBox ov w h m mx my s) = recentActivations s"
  "lastFire (updateBox ov w h m mx my s) = lastFire s"
  "active (updateBox ov w h m mx my s) = active s"
  by (simp_all add: updateBox_def Let_def split: option.splits prod.splits)

lemma autoTuneStep_fields [simp]:
  "scoreBuf (autoTuneStep env now s) = scoreBuf s"
  "lastFire (autoTuneStep env now s) = lastFire s"
  "active (autoTuneStep env now s) = active s"
  "boxEma (autoTuneStep env now s) = boxEma s"
  by (simp_all add: autoTuneStep_def Let_def)

lemma recordEdge_fields [simp]:
  "scoreBuf (recordEdge now s) = scoreBuf s"
  "sensitivity (recordEdge now s) = sensitivity s"
  "lastFire (recordEdge now s) = lastFire s"
  "active (recordEdge now s) = active s"
  "boxEma (recordEdge now s) = boxEma s"
  by (simp_all add: recordEdge_def Let_def)

lemma fireFrameDiff_fields [simp]:
  "scoreBuf (fst (fireFrameDiff env now avg s)) = scoreBuf s"
  "sensitivity (fst (fireFrameDiff env now avg s)) = sensitivity s"
  "recentActivations (fst (fireFrameDiff env now avg s)) = recentActivations s"
  "active (fst (fireFrameDiff env now avg s)) = active s"
  "boxEma (fst (fireFrameDiff env now avg s)) = boxEma s"
  by (simp_all add: fireFrameDiff_def)

lemma updateActivation_cong:
  assumes "active s = active s'" "sustain s = sustain s'" "holdFrames s = holdFrames s'"
  shows "active (updateActivation sens avg s) = active (updateActivation sens avg s')"
  using assms by (auto simp: updateActivation_def Let_def)

lemma analyze_scored_state:
  "fst (analyze_scored env score m mx my w h now ov s) =
     (let sens = c_sensitivity env;
          s1 = s\<lparr>scoreBuf := pushScore score (scoreBuf s)\<rparr>;
          avg = average (scoreBuf s1)
      in fst (fireFrameDiff env now avg (recordEdge now (autoTuneStep env now
           (updateBox ov w h m mx my (updateActivation sens avg (trackRecent now avg s1)))))))"
  by (simp add: analyze_scored_def Let_def split: prod.splits)

lemma analyze_scored_events:
  "snd (analyze_scored env score m mx my w h now ov s) =
     (let sens = c_sensitivity env;
          s1 = s\<lparr>scoreBuf := pushScore score (scoreBuf s)\<rparr>;
          avg = average (scoreBuf s1);
          s5 = autoTuneStep env now
                 (updateBox ov w h m mx my (updateActivation sens avg (trackRecent now avg s1)))
      in [AiThreshold sens, AiScore avg now sens, AiActive (active s5) now]
         @ snd (fireFrameDiff env now avg (recordEdge now s5)))"
  by (simp add: analyze_scored_def Let_def split: prod.splits)

text \<open>The stabilized flag after a scored tick and the events of the tick, without the steps
  that do not bear on them.\<close>

lemma analyze_scored_active:
  "active (fst (analyze_scored env score m mx my w h now ov s)) =
     active (updateActivation (c_sensitivity env) (average (pushScore score (scoreBuf s))) s)"
proof -
  have "active (updateActivation sens avg (trackRecent now avg (s\<lparr>scoreBuf := b\<rparr>)))
      = active (updateActivation sens avg s)" for sens avg b
    by (rule updateActivation_cong) simp_all
  then show ?thesis by (simp add: analyze_scored_state Let_def)
qed

lemma analyze_scored_events_plain:
  "snd (analyze_scored env score m mx my w h now ov s) =
     (let sens = c_sensitivity env;
          avg = average (pushScore score (scoreBuf s));
          act = active (updateActivation sens avg s)
      in [AiThreshold sens, AiScore avg now sens, AiActive act now]
         @ (if c_alertsEnabled env \<and> c_onIrregularity env \<and> act \<and> avg > sens + 0.005
               \<and> now - lastFire s > 5000
            then [Irregularity avg, AiDetect avg now] else []))"
proof -
  have a: "active (updateActivation sens avg (trackRecent now avg (s\<lparr>scoreBuf := b\<rparr>)))
      = active (updateActivation sens avg s)" for sens avg b
    by (rule updateActivation_cong) simp_all
  show ?thesis
    by (simp add: analyze_scored_events Let_def fireFrameDiff_def a)
qed

lemma analyze_scored_lastFire:
  "lastFire (fst (analyze_scored env score m mx my w h now ov s)) =
     (if AiDetect (average (pushScore score (scoreBuf s))) now
           \<in> set (snd (analyze_scored env score m mx my w h now ov s))
      then now else lastFire s)"
proof -
  have a: "active (updateActivation sens avg (trackRecent now avg (s\<lparr>scoreBuf := b\<rparr>)))
      = active (updateActivation sens avg s)" for sens avg b
    by (rule updateActivation_cong) simp_all
  show ?thesis
    by (simp add: analyze_scored_events_plain analyze_scored_state Let_def fireFrameDiff_def a)
qed

lemma analyze_scored_tick:
  assumes "scored_tick t s"
  shows "\<exists>score m mx my w h. analyze t s =
     (fst (analyze_scored (analyzeEnv s) score m mx my w h (clock t) (overlayDims t) s)\<lparr>lastFrame := Some (currData t)\<rparr>,
      snd (analyze_scored (analyzeEnv s) score m mx my w h (clock t) (overlayDims t) s))"
proof -
  from assms obtain prev where p: "lastFrame s = Some prev" by (auto simp: scored_tick_def)
  define h where "h = frame_height 160 (videoWidth t) (videoHeight t)"
  obtain d m mx my where sc: "scan_blocks (currData t) prev 160 h = (d, m, mx, my)"
    by (metis prod_cases4)
  from assms p sc have "analyze t s =
     (fst (analyze_scored (analyzeEnv s) (saliency_score d 160 h) m mx my 160 h (clock t) (overlayDims t) s)\<lparr>lastFrame := Some (currData t)\<rparr>,
      snd (analyze_scored (analyzeEnv s) (saliency_score d 160 h) m mx my 160 h (clock t) (overlayDims t) s))"
    by (simp add: scored_tick_def analyze_def Let_def h_def case_prod_beta)
  then show ?thesis by blast
qed

lemma analyze_unscored:
  "\<not> scored_tick t s \<Longrightarrow> snd (analyze t s) = [] \<and> lastFire (fst (analyze t s)) = lastFire s"
  by (auto simp: analyze_def scored_tick_def Let_def split: option.splits prod.splits)

section \<open>The score buffer\<close>

lemma foldl_plus_sum_list: "foldl (+) a xs = a + sum_list (xs :: real list)"
  by (induction xs arbitrary: a) simp_all

lemma average_mean: "average buf = sum_list buf / real (length buf)"
  by (simp add: average_def foldl_plus_sum_list)

lemma pushScore_recent:
  assumes "length buf \<le> 8"
  shows "pushScore score buf = drop (length (buf @ [score]) - 8) (buf @ [score])"
proof (cases "length buf = 8")
  case True
  then have "length (buf @ [score]) - 8 = Suc 0" and "buf \<noteq> []" by auto
  then show ?thesis using True by (simp add: pushScore_def Let_def drop_Suc)
next
  case False
  with assms show ?thesis by (simp add: pushScore_def Let_def)
qed

lemma pushScore_length: "length buf \<le> 8 \<Longrightarrow> length (pushScore score buf) \<le> 8 \<and> pushScore score buf \<noteq> []"
  by (cases buf) (auto simp: pushScore_def Let_def)

lemma analyze_scored_scoreBuf:
  "scoreBuf (fst (analyze_scored env score m mx my w h now ov s)) = pushScore score (scoreBuf s)"
  by (simp add: analyze_scored_state Let_def)

lemma onScore_scoreBuf:
  "6 \<le> warmup s \<Longrightarrow> scoreBuf (fst (onScore env score now s)) = pushScore score (scoreBuf s)"
  by (simp add: onScore_def Let_def)

section \<open>The activation state machine\<close>




lemma act_step_count:
  assumes "\<not> active s" "active (updateActivation sens x s)"
  shows "3 \<le> sustain s + (if x > sens then 1 else 0)"
  using assms by (auto simp: updateActivation_def Let_def split: if_splits)

lemma sustain_step_nonneg:
  assumes "0 \<le> sustain s"
  shows "0 \<le> sustain (updateActivation sens x s)"
  using assms by (auto simp: updateActivation_def Let_def split: if_splits)

lemma inact_step_sustain:
  assumes "\<not> active s" "0 \<le> sustain s" "\<not> active (updateActivation sens x s)"
  shows "sustain (updateActivation sens x s) \<le> sustain s + (if x > sens then 1 else 0)"
  using assms by (auto simp: updateActivation_def Let_def split: if_splits)

text \<open>An inactive machine whose counter stands at \<open>sustain s\<close> needs the missing
  above-entry samples before it can be active: the counter rises by at most one per sample,
  and only on a sample above the entry threshold.\<close>

lemma feed_needs_three:
  "\<not> active s \<Longrightarrow> 0 \<le> sustain s \<Longrightarrow> active (feed sens xs s) \<Longrightarrow>
   3 \<le> sustain s + int (length (filter (\<lambda>x. x > sens) xs))"
proof (induction xs arbitrary: s)
  case Nil
  then show ?case by (simp add: feed_def)
next
  case (Cons x xs)
  let ?s' = "updateActivation sens x s"
  show ?case
  proof (cases "active ?s'")
    case True
    from act_step_count[OF Cons.prems(1) True] show ?thesis by auto
  next
    case False
    from Cons.prems(3) have "active (feed sens xs ?s')" by (simp add: feed_def)
    from Cons.IH[OF False sustain_step_nonneg[OF Cons.prems(2)] this]
      inact_step_sustain[OF Cons.prems(1,2) False]
    show ?thesis by auto
  qed
qed

lemma three_in_a_row:
  assumes "\<not> active s" "sustain s = 0" "x1 > sens" "x2 > sens" "x3 > sens"
  shows "\<not> active (feed sens [x1] s) \<and> \<not> active (feed sens [x1, x2] s)
    \<and> active (feed sens [x1, x2, x3] s)"
  using assms by (simp add: feed_def updateActivation_def Let_def)

text \<open>
  Claim C3, as stated, asks for three \<^emph>\<open>consecutive\<close> samples above the entry threshold.
  The counter \<^verbatim>\<open>sustainRef\<close> is left unchanged by a sample in the dead zone between the
  exit and the entry threshold, so three above-entry samples separated by dead-zone samples
  activate the machine as well: with entry 0.20 and exit 0.10 the samples
  0.25, 0.15, 0.25, 0.15, 0.25 make it active although no three consecutive samples are
  above 0.20.
\<close>

theorem C3_consecutive_counterexample:
  "active (feed (1/5) [1/4, 3/20, 1/4, 3/20, 1/4] (initial True))
   \<and> \<not> run_above (1/5) 3 0 [1/4, 3/20, 1/4, 3/20, 1/4]"
  by (simp add: feed_def updateActivation_def initial_def Let_def)

text \<open>
  Claim C3, amended: starting from an inactive state with \<open>sustain = 0\<close> (the initial
  state, the state after a reset and the state after every deactivation), the machine is
  active after a sequence of smoothed samples only if at least three of them (consecutive
  or not) were strictly above the entry threshold; and three consecutive samples above the
  entry threshold make it active on the third sample and not before.
\<close>

theorem C3_activation_needs_three_above:
  assumes "\<not> active s" and "sustain s = 0"
  shows "(active (feed sens xs s) \<longrightarrow> 3 \<le> length (filter (\<lambda>x. x > sens) xs))
       \<and> (x1 > sens \<and> x2 > sens \<and> x3 > sens \<longrightarrow>
            \<not> active (feed sens [x1] s) \<and> \<not> active (feed sens [x1, x2] s)
            \<and> active (feed sens [x1, x2, x3] s))"
proof -
  have "3 \<le> length (filter (\<lambda>x. x > sens) xs)" if "active (feed sens xs s)"
    using feed_needs_three[OF assms(1) _ that] assms(2) by simp
  moreover have "\<not> active (feed sens [x1] s) \<and> \<not> active (feed sens [x1, x2] s)
      \<and> active (feed sens [x1, x2, x3] s)" if "x1 > sens \<and> x2 > sens \<and> x3 > sens"
    using three_in_a_row[OF assms] that by blast
  ultimately show ?thesis by blast
qed

theorem C3_activation_needs_three_above_witness:
  "3 \<le> length (filter (\<lambda>x. x > 1/5) [1/4, 3/20, 1/4, 3/20, 1/4 :: real])
   \<and> \<not> active (feed (1/5) [1/4] (initial True))
   \<and> \<not> active (feed (1/5) [1/4, 1/4] (initial True))
   \<and> active (feed (1/5) [1/4, 1/4, 1/4] (initial True))"
  using C3_activation_needs_three_above
    [of "initial True" "1/5" "[1/4, 3/20, 1/4, 3/20, 1/4]" "1/4" "1/4" "1/4"]
  by (simp add: initial_def)

subsection \<open>Deactivation\<close>










section \<open>The shared score buffer\<close>

text \<open>
  Claim C5, as stated, gives each source a buffer of its own. The component has one
  \<^verbatim>\<open>scoreBufRef\<close>, and both the frame-diff tick (line 1342) and the embedding callback
  (line 1458) push into it: after an embedding score of 0.9, a frame-diff tick with raw score
  0 publishes the smoothed score 0.45, where a buffer of its own would give 0.
\<close>

theorem C5_per_source_counterexample:
  "snd (analyze_scored (first_render True) 0 0 0 0 160 90 2000 None
         (fst (onScore (first_render True) (9/10) 1000 ((initial True)\<lparr>warmup := 6\<rparr>))))
     = [AiThreshold (fl (1/5)), AiScore (9/20) 2000 (fl (1/5)), AiActive False 2000]
   \<and> snd (analyze_scored (first_render True) 0 0 0 0 160 90 2000 None ((initial True)\<lparr>warmup := 6\<rparr>))
     = [AiThreshold (fl (1/5)), AiScore 0 2000 (fl (1/5)), AiActive False 2000]"
  by (simp add: analyze_scored_events_plain onScore_def first_render_def initial_def pushScore_def
      average_def updateActivation_def fl_lit_0_2 Let_def)

text \<open>
  Claim C5, amended: the aggregator keeps one rolling buffer shared by both sources. Every
  scored frame-diff tick, and every embedding score after the warm-up, appends its raw score
  to that buffer, which then holds the most recent raw scores of either source, at most 8
  of them, the oldest evicted on overflow; the smoothed score published by the frame-diff
  tick, and the score of a detection raised by the embedding callback, is the arithmetic
  mean of the buffer.
\<close>

theorem C5_shared_rolling_buffer:
  assumes "length (scoreBuf s) \<le> 8"
  shows "let buf = drop (length (scoreBuf s @ [score]) - 8) (scoreBuf s @ [score]) in
     scoreBuf (fst (analyze_scored env score m mx my w h now ov s)) = buf
     \<and> AiScore (sum_list buf / real (length buf)) now (c_sensitivity env)
          \<in> set (snd (analyze_scored env score m mx my w h now ov s))
     \<and> (6 \<le> warmup s \<longrightarrow>
          scoreBuf (fst (onScore env' score now s)) = buf
          \<and> (\<forall>a ts. AiDetect a ts \<in> set (snd (onScore env' score now s)) \<longrightarrow>
                a = sum_list buf / real (length buf)))
     \<and> 0 < length buf \<and> length buf \<le> 8"
proof -
  let ?buf = "drop (length (scoreBuf s @ [score]) - 8) (scoreBuf s @ [score])"
  have p: "pushScore score (scoreBuf s) = ?buf" by (rule pushScore_recent[OF assms])
  have a: "scoreBuf (fst (analyze_scored env score m mx my w h now ov s)) = ?buf"
    by (simp only: analyze_scored_scoreBuf p)
  have b: "AiScore (sum_list ?buf / real (length ?buf)) now (c_sensitivity env)
          \<in> set (snd (analyze_scored env score m mx my w h now ov s))"
    unfolding p[symmetric] by (simp add: analyze_scored_events Let_def average_mean)
  have c: "scoreBuf (fst (onScore env' score now s)) = ?buf" if "6 \<le> warmup s"
    using onScore_scoreBuf[OF that] p by simp
  have d: "a = sum_list ?buf / real (length ?buf)"
    if "6 \<le> warmup s" "AiDetect a ts \<in> set (snd (onScore env' score now s))" for a ts
    using that unfolding p[symmetric]
    by (auto simp: onScore_def Let_def average_mean split: if_splits)
  have e: "0 < length ?buf \<and> length ?buf \<le> 8"
    using pushScore_length[OF assms, of score] unfolding p by simp
  from a b c d e show ?thesis unfolding Let_def by blast
qed

theorem C5_shared_rolling_buffer_witness:
  "scoreBuf (fst (analyze_scored (first_render True) (9/10) 0 0 0 160 90 2000 None
      ((initial True)\<lparr>warmup := 6, scoreBuf := [1/10, 2/10, 3/10, 4/10, 5/10, 6/10, 7/10, 8/10]\<rparr>)))
     = [2/10, 3/10, 4/10, 5/10, 6/10, 7/10, 8/10, 9/10]
   \<and> scoreBuf (fst (onScore (first_render True) (9/10) 2000
      ((initial True)\<lparr>warmup := 6, scoreBuf := [1/10, 2/10, 3/10, 4/10, 5/10, 6/10, 7/10, 8/10]\<rparr>)))
     = [2/10, 3/10, 4/10, 5/10, 6/10, 7/10, 8/10, 9/10]"
  using C5_shared_rolling_buffer [where s = "(initial True)\<lparr>warmup := 6, scoreBuf := [1/10, 2/10, 3/10, 4/10, 5/10, 6/10, 7/10, 8/10]\<rparr>"
      and score = "9/10" and m = 0 and mx = 0 and my = 0 and w = 160 and h = 90 and now = 2000 and ov = None
      and env = "first_render True" and env' = "first_render True"]
  by (simp add: initial_def Let_def)

section \<open>The adaptive threshold controller\<close>

















section \<open>The overlay box\<close>

lemma js_round_near: "\<bar>real_of_int (js_round x) - x\<bar> \<le> 1 / 2"
  unfolding js_round_def by linarith

text \<open>
  Claim C9, as stated, has every later observation move the box by exactly
  \<open>alpha \<times> delta\<close>. The component rounds each smoothed coordinate with
  \<^verbatim>\<open>Math.round\<close> (lines 1388-1391): from the box \<open>(0, 0, 8, 8)\<close> an observation at
  \<open>x = 8\<close> gives \<open>x = round 2.8 = 3\<close>, not \<open>0 + 0.35 \<times> 8 = 2.8\<close>.
\<close>

theorem C9_exact_step_counterexample:
  "boxEma (updateBox (Some (160, 90)) 160 90 1 8 0
      ((initial True)\<lparr>active := True, boxEma := Some \<lparr>box_x = 0, box_y = 0, box_w = 8, box_h = 8\<rparr>\<rparr>))
     = Some \<lparr>box_x = 3, box_y = 0, box_w = 8, box_h = 8\<rparr>
   \<and> (3 :: real) \<noteq> 0 + 0.35 * (8 - 0)"
  by (simp add: updateBox_def blockBox_def ema_round_def initial_def js_round_def fl_compute)

subsection \<open>The rounded coordinate stays within a half of the exact average\<close>

lemma round_grid:
  fixes N :: int and v :: real
  assumes "\<bar>v - of_int N / 20\<bar> < 1 / 20"
  shows "\<bar>real_of_int (js_round v) - real_of_int N / 20\<bar> \<le> 1 / 2"
proof -
  define r where "r = js_round v"
  have r1: "of_int r \<le> v + 1 / 2" and r2: "v + 1 / 2 < of_int r + 1"
    unfolding r_def js_round_def by linarith+
  from assms have n1: "20 * v - 1 < of_int N" and n2: "of_int N < 20 * v + 1" by linarith+
  have "20 * real_of_int r - 11 < of_int N" using r1 n1 by linarith
  then have "real_of_int (20 * r - 11) < of_int N" by simp
  then have "20 * r - 11 < N" by (simp only: of_int_less_iff)
  then have "20 * r - 10 \<le> N" by simp
  then have "real_of_int (20 * r - 10) \<le> of_int N" by (simp only: of_int_le_iff)
  then have lo: "20 * real_of_int r - 10 \<le> of_int N" by simp
  have "real_of_int N < 20 * of_int r + 11" using r2 n2 by linarith
  then have "real_of_int N < of_int (20 * r + 11)" by simp
  then have "N < 20 * r + 11" by (simp only: of_int_less_iff)
  then have "N \<le> 20 * r + 10" by simp
  then have "real_of_int N \<le> of_int (20 * r + 10)" by (simp only: of_int_le_iff)
  then have hi: "real_of_int N \<le> 20 * of_int r + 10" by simp
  from lo hi have "real_of_int r - real_of_int N / 20 \<le> 1 / 2"
    and "- (real_of_int r - real_of_int N / 20) \<le> 1 / 2" by simp_all
  then have "\<bar>real_of_int r - real_of_int N / 20\<bar> \<le> 1 / 2" by (rule abs_leI)
  then show ?thesis unfolding r_def .
qed

lemma fl_product_error:
  assumes "0 \<le> c" "c \<le> 1" "\<bar>x\<bar> \<le> M"
  shows "\<bar>fl (c * x) - c * x\<bar> \<le> M / 2 ^ 53" and "\<bar>c * x\<bar> \<le> M"
proof -
  have "\<bar>c * x\<bar> = c * \<bar>x\<bar>" using assms(1) by (simp add: abs_mult)
  also have "\<dots> \<le> 1 * M" using assms by (intro mult_mono) simp_all
  finally show m: "\<bar>c * x\<bar> \<le> M" by simp
  have "\<bar>fl (c * x) - c * x\<bar> \<le> \<bar>c * x\<bar> / 2 ^ 53" by (rule fl_error)
  also have "\<dots> \<le> M / 2 ^ 53" using m by (simp add: divide_right_mono)
  finally show "\<bar>fl (c * x) - c * x\<bar> \<le> M / 2 ^ 53" .
qed

lemma literal_error:
  fixes c c' x M :: real
  assumes "\<bar>c - c'\<bar> \<le> 1 / 2 ^ 54" "\<bar>x\<bar> \<le> M"
  shows "\<bar>c * x - c' * x\<bar> \<le> M / 2 ^ 54"
proof -
  have "c * x - c' * x = (c - c') * x" by (simp add: algebra_simps)
  then have "\<bar>c * x - c' * x\<bar> = \<bar>c - c'\<bar> * \<bar>x\<bar>" by (simp only: abs_mult)
  also have "\<dots> \<le> (1 / 2 ^ 54) * M" using assms by (intro mult_mono) simp_all
  finally show ?thesis by simp
qed

lemma ema_round_near:
  assumes "\<bar>obs\<bar> \<le> 2 ^ 20" "\<bar>prv\<bar> \<le> 2 ^ 20"
  shows "\<bar>real_of_int (ema_round obs prv)
          - (real_of_int prv + 0.35 * (real_of_int obs - real_of_int prv))\<bar> \<le> 1 / 2"
proof -
  define a :: real where "a = 3152519739159347 / 2 ^ 53"
  define b :: real where "b = 5854679515581645 / 2 ^ 53"
  define M :: real where "M = 2 ^ 20"
  define ob where "ob = real_of_int obs"
  define p where "p = real_of_int prv"
  define v where "v = fl (fl (a * ob) + fl (b * p))"
  have ea: "fl (7 / 20) = a" by (simp add: a_def fl_lit_0_35)
  have eb: "fl (1 - a) = b" using fl_lit_0_65 by (simp add: a_def b_def fl_lit_0_35)
  have er: "ema_round obs prv = js_round v"
    by (simp add: ema_round_def Let_def ea eb v_def ob_def p_def)
  have oM: "\<bar>ob\<bar> \<le> M" using assms(1) by (simp add: ob_def M_def)
  have pM: "\<bar>p\<bar> \<le> M" using assms(2) by (simp add: p_def M_def)
  have a01: "0 \<le> a" "a \<le> 1" by (simp_all add: a_def)
  have b01: "0 \<le> b" "b \<le> 1" by (simp_all add: b_def)
  note e1 = fl_product_error[OF a01 oM]
  note e2 = fl_product_error[OF b01 pM]
  have la: "\<bar>a * ob - (7 / 20) * ob\<bar> \<le> M / 2 ^ 54"
    by (rule literal_error[OF _ oM]) (simp add: a_def)
  have lb: "\<bar>b * p - (13 / 20) * p\<bar> \<le> M / 2 ^ 54"
    by (rule literal_error[OF _ pM]) (simp add: b_def)
  define x1 where "x1 = fl (a * ob)"
  define x2 where "x2 = fl (b * p)"
  define y1 where "y1 = a * ob"
  define y2 where "y2 = b * p"
  define u :: real where "u = M / 2 ^ 53"
  have upos: "0 \<le> u" "u \<le> 1 / 2" by (simp_all add: u_def M_def)
  have b1: "- u \<le> x1 - y1" "x1 - y1 \<le> u" "- M \<le> y1" "y1 \<le> M"
    using e1 unfolding abs_le_iff x1_def y1_def u_def by linarith+
  have b2: "- u \<le> x2 - y2" "x2 - y2 \<le> u" "- M \<le> y2" "y2 \<le> M"
    using e2 unfolding abs_le_iff x2_def y2_def u_def by linarith+
  have "x1 + x2 \<le> 2 * M + 1" and "- (x1 + x2) \<le> 2 * M + 1" using b1 b2 upos by linarith+
  then have "\<bar>x1 + x2\<bar> \<le> 2 * M + 1" by (rule abs_leI)
  then have sumM: "\<bar>fl (a * ob) + fl (b * p)\<bar> \<le> 2 * M + 1" unfolding x1_def x2_def .
  have "\<bar>v - (fl (a * ob) + fl (b * p))\<bar> \<le> \<bar>fl (a * ob) + fl (b * p)\<bar> / 2 ^ 53"
    unfolding v_def by (rule fl_error)
  also have "\<dots> \<le> (2 * M + 1) / 2 ^ 53" using sumM by (simp add: divide_right_mono)
  finally have e3: "\<bar>v - (fl (a * ob) + fl (b * p))\<bar> \<le> (2 * M + 1) / 2 ^ 53" .
  have b3: "- ((2 * M + 1) / 2 ^ 53) \<le> v - (x1 + x2)" "v - (x1 + x2) \<le> (2 * M + 1) / 2 ^ 53"
    using e3 unfolding abs_le_iff x1_def x2_def by linarith+
  have b4: "- (M / 2 ^ 54) \<le> y1 - (7 / 20) * ob" "y1 - (7 / 20) * ob \<le> M / 2 ^ 54"
    using la unfolding abs_le_iff y1_def by linarith+
  have b5: "- (M / 2 ^ 54) \<le> y2 - (13 / 20) * p" "y2 - (13 / 20) * p \<le> M / 2 ^ 54"
    using lb unfolding abs_le_iff y2_def by linarith+
  have small: "(2 * M + 1) / 2 ^ 53 + 2 * u + 2 * (M / 2 ^ 54) < 1 / 20"
    by (simp add: u_def M_def)
  have "v - ((7 / 20) * ob + (13 / 20) * p) < 1 / 20"
    and "- (v - ((7 / 20) * ob + (13 / 20) * p)) < 1 / 20"
    using b1(1,2) b2(1,2) b3 b4 b5 small by linarith+
  then have bound: "\<bar>v - ((7 / 20) * ob + (13 / 20) * p)\<bar> < 1 / 20"
    by (simp only: abs_less_iff)
  have eq: "(7 / 20) * ob + (13 / 20) * p = real_of_int (7 * obs + 13 * prv) / 20"
    by (simp add: ob_def p_def)
  from bound have "\<bar>v - real_of_int (7 * obs + 13 * prv) / 20\<bar> < 1 / 20" unfolding eq .
  from round_grid[OF this]
  have g: "\<bar>real_of_int (js_round v) - real_of_int (7 * obs + 13 * prv) / 20\<bar> \<le> 1 / 2" .
  have ex: "real_of_int prv + 0.35 * (real_of_int obs - real_of_int prv)
      = real_of_int (7 * obs + 13 * prv) / 20" by (simp add: field_simps)
  show ?thesis unfolding er ex by (rule g)
qed

lemma updateBox_seed:
  assumes "active s" "m > 0" "boxEma s = None"
  shows "boxEma (updateBox (Some (ovw, ovh)) w h m mx my s) = Some (blockBox ovw ovh w h mx my)"
  using assms by (simp add: updateBox_def Let_def)

lemma updateBox_smooth:
  assumes "active s" "m > 0" "boxEma s = Some b"
  shows "boxEma (updateBox (Some (ovw, ovh)) w h m mx my s) =
     Some \<lparr>box_x = ema_round (box_x (blockBox ovw ovh w h mx my)) (box_x b),
           box_y = ema_round (box_y (blockBox ovw ovh w h mx my)) (box_y b),
           box_w = ema_round (box_w (blockBox ovw ovh w h mx my)) (box_w b),
           box_h = ema_round (box_h (blockBox ovw ovh w h mx my)) (box_h b)\<rparr>"
  using assms by (simp add: updateBox_def Let_def)

lemma updateBox_inactive: "\<not> active s \<Longrightarrow> updateBox ov w h m mx my s = s"
  by (simp add: updateBox_def split: option.splits prod.splits)

text \<open>
  Claim C9, amended: with an overlay canvas, the first largest-difference block seen while
  active (since the last reset) seeds the smoothed box with the observed box itself; every
  later observation while active sets each of x, y, w, h to \<^verbatim>\<open>Math.round\<close> of the double
  \<open>0.35 \<times> observed + 0.65 \<times> previous\<close>, an integer within 1/2 of
  \<open>previous + 0.35 \<times> (observed - previous)\<close> (for coordinates up to \<open>2\<^sup>2\<^sup>0\<close> in size; where that
  value lies halfway between two integers the rounding of the doubles decides which of the
  two it is); while inactive the box is not updated.
\<close>

theorem C9_box_smoothing:
  assumes "ov = Some (ovw, ovh)"
  shows "let r = blockBox ovw ovh w h mx my in
     (active s \<and> m > 0 \<and> boxEma s = None \<longrightarrow> boxEma (updateBox ov w h m mx my s) = Some r)
     \<and> (active s \<and> m > 0 \<and> boxEma s = Some b \<longrightarrow>
        boxEma (updateBox ov w h m mx my s) =
          Some \<lparr>box_x = ema_round (box_x r) (box_x b), box_y = ema_round (box_y r) (box_y b),
                box_w = ema_round (box_w r) (box_w b), box_h = ema_round (box_h r) (box_h b)\<rparr>)
     \<and> (\<forall>obs prv. \<bar>obs\<bar> \<le> 2 ^ 20 \<and> \<bar>prv\<bar> \<le> 2 ^ 20 \<longrightarrow>
          \<bar>real_of_int (ema_round obs prv)
            - (real_of_int prv + 0.35 * (real_of_int obs - real_of_int prv))\<bar> \<le> 1 / 2)
     \<and> (\<not> active s \<longrightarrow> updateBox ov w h m mx my s = s)"
proof -
  have near: "\<forall>obs prv. \<bar>obs\<bar> \<le> 2 ^ 20 \<and> \<bar>prv\<bar> \<le> 2 ^ 20 \<longrightarrow>
          \<bar>real_of_int (ema_round obs prv)
            - (real_of_int prv + 0.35 * (real_of_int obs - real_of_int prv))\<bar> \<le> 1 / 2"
    using ema_round_near by blast
  show ?thesis
    unfolding Let_def assms
    using updateBox_seed[of s m ovw ovh w h mx my] updateBox_smooth[of s m b ovw ovh w h mx my]
      updateBox_inactive[of s "Some (ovw, ovh)" w h m mx my] near
    by blast
qed

theorem C9_box_smoothing_witness:
  "boxEma (updateBox (Some (240, 135)) 160 90 1 8 0 ((initial True)\<lparr>active := True\<rparr>))
     = Some \<lparr>box_x = 12, box_y = 0, box_w = 12, box_h = 12\<rparr>
   \<and> boxEma (updateBox (Some (240, 135)) 160 90 1 8 0
       ((initial True)\<lparr>active := True, boxEma := Some \<lparr>box_x = 2, box_y = 0, box_w = 12, box_h = 12\<rparr>\<rparr>))
     = Some \<lparr>box_x = 5, box_y = 0, box_w = 12, box_h = 12\<rparr>
   \<and> \<bar>real_of_int (ema_round 12 2) - (2 + 0.35 * (12 - 2))\<bar> \<le> 1 / 2
   \<and> updateBox (Some (240, 135)) 160 90 1 8 0 (initial True) = initial True"
proof -
  let ?s1 = "(initial True)\<lparr>active := True\<rparr>"
  let ?b = "\<lparr>box_x = 2, box_y = 0, box_w = 12, box_h = 12\<rparr>"
  let ?s2 = "(initial True)\<lparr>active := True, boxEma := Some ?b\<rparr>"
  have bb: "blockBox 240 135 160 90 8 0 = \<lparr>box_x = 12, box_y = 0, box_w = 12, box_h = 12\<rparr>"
    by (simp add: blockBox_def fl_compute)
  have em: "ema_round 12 2 = 5" "ema_round 0 0 = 0" "ema_round 12 12 = 12"
    by (simp_all add: ema_round_def js_round_def fl_compute)
  have h1: "active ?s1 \<and> (0::int) < 1 \<and> boxEma ?s1 = None" by (simp add: initial_def)
  have h2: "active ?s2 \<and> (0::int) < 1 \<and> boxEma ?s2 = Some ?b" by (simp add: initial_def)
  have h3: "\<not> active (initial True)" by (simp add: initial_def)
  have h4: "\<bar>12 :: int\<bar> \<le> 2 ^ 20 \<and> \<bar>2 :: int\<bar> \<le> 2 ^ 20" by simp
  from C9_box_smoothing[of "Some (240, 135)" 240 135 160 90 8 0 ?s1 1] h1
  have a: "boxEma (updateBox (Some (240, 135)) 160 90 1 8 0 ?s1) = Some (blockBox 240 135 160 90 8 0)"
    unfolding Let_def by blast
  from C9_box_smoothing[of "Some (240, 135)" 240 135 160 90 8 0 ?s2 1 ?b] h2
  have b: "boxEma (updateBox (Some (240, 135)) 160 90 1 8 0 ?s2) =
     Some \<lparr>box_x = ema_round (box_x (blockBox 240 135 160 90 8 0)) (box_x ?b),
           box_y = ema_round (box_y (blockBox 240 135 160 90 8 0)) (box_y ?b),
           box_w = ema_round (box_w (blockBox 240 135 160 90 8 0)) (box_w ?b),
           box_h = ema_round (box_h (blockBox 240 135 160 90 8 0)) (box_h ?b)\<rparr>"
    unfolding Let_def by blast
  from C9_box_smoothing[of "Some (240, 135)" 240 135 160 90 8 0 "initial True" 1] h3
  have c: "updateBox (Some (240, 135)) 160 90 1 8 0 (initial True) = initial True"
    unfolding Let_def by blast
  from C9_box_smoothing[of "Some (240, 135)" 240 135 160 90 8 0 "initial True" 1] h4
  have d: "\<bar>real_of_int (ema_round 12 2) - (real_of_int 2 + 0.35 * (real_of_int 12 - real_of_int 2))\<bar> \<le> 1 / 2"
    unfolding Let_def by blast
  from a b c d show ?thesis by (simp add: bb em)
qed

section \<open>Detection guards\<close>










section \<open>Reset\<close>

lemma resetForLoop_cleared: "cleared (fst (resetForLoop now s))"
  by (simp add: resetForLoop_def cleared_def)




section \<open>Load failure\<close>

lemma det_apply_Fallback: "fold det_apply ops Fallback = Fallback"
proof (induction ops)
  case Nil
  show ?case by simp
next
  case (Cons x ops)
  then show ?case by (cases x) simp_all
qed

lemma embeddingTick_Fallback: "detectorRef s = Some Fallback \<Longrightarrow> embeddingTick inferred now s = (s, [])"
  by (simp add: embeddingTick_def)

text \<open>
  Claim C8: when any of the three loads fails, \<^verbatim>\<open>createVideoAnomalyDetector\<close> returns
  normally, with the fallback detector: \<open>isReady\<close> is false after any sequence of
  \<open>start\<close> and \<open>stop\<close> calls, which leave the detector as it is; the component records
  \<open>aiReady = false\<close>, and no embedding tick ever changes its state or raises an event, so
  the state evolves by the frame-diff callback alone.
\<close>

theorem C8_load_failure_degrades:
  assumes "load_model L = Inl err"
  shows "createVideoAnomalyDetector cb L = Inr Fallback
       \<and> det_start Fallback = Fallback \<and> det_stop Fallback = Fallback
       \<and> (\<forall>ops. fold det_apply ops Fallback = Fallback \<and> \<not> det_isReady (fold det_apply ops Fallback))
       \<and> (hasMedia s \<and> analyzing s \<and> detectorRef s = None \<longrightarrow>
            maybeInit True L s = Inr (s\<lparr>detectorRef := Some Fallback, aiReady := False\<rparr>))
       \<and> (detectorRef s = Some Fallback \<longrightarrow> embeddingTick inferred now s = (s, []))"
  using assms
  by (simp add: createVideoAnomalyDetector_def maybeInit_def det_apply_Fallback embeddingTick_Fallback)

theorem C8_load_failure_degrades_witness:
  "createVideoAnomalyDetector (first_render True)
       \<lparr>import_tf = Inr (), import_mobilenet = Inr (), mobilenet_load = Inl ''network''\<rparr>
     = Inr Fallback
   \<and> maybeInit True \<lparr>import_tf = Inr (), import_mobilenet = Inr (), mobilenet_load = Inl ''network''\<rparr>
        ((initial True)\<lparr>hasMedia := True, analyzing := True\<rparr>)
     = Inr ((initial True)\<lparr>hasMedia := True, analyzing := True, detectorRef := Some Fallback, aiReady := False\<rparr>)"
  using C8_load_failure_degrades [where L = "\<lparr>import_tf = Inr (), import_mobilenet = Inr (), mobilenet_load = Inl ''network''\<rparr>"
      and err = "''network''" and s = "(initial True)\<lparr>hasMedia := True, analyzing := True\<rparr>"
      and cb = "first_render True"]
  by (simp add: load_model_def initial_def)

section \<open>Detection cooldown\<close>

lemma detections_append: "detections (xs @ ys) = detections xs @ detections ys"
  by (induction xs rule: detections.induct) simp_all

lemma fireFrameDiff_fire:
  "(detections (snd (fireFrameDiff env now avg s)) = []
      \<and> lastFire (fst (fireFrameDiff env now avg s)) = lastFire s)
   \<or> (detections (snd (fireFrameDiff env now avg s)) = [now] \<and> now - lastFire s > 5000
      \<and> lastFire (fst (fireFrameDiff env now avg s)) = now)"
  by (simp add: fireFrameDiff_def)

lemma analyze_scored_fire:
  "(detections (snd (analyze_scored env score m mx my w h now ov s)) = []
      \<and> lastFire (fst (analyze_scored env score m mx my w h now ov s)) = lastFire s)
   \<or> (detections (snd (analyze_scored env score m mx my w h now ov s)) = [now] \<and> now - lastFire s > 5000
      \<and> lastFire (fst (analyze_scored env score m mx my w h now ov s)) = now)"
proof -
  let ?s1 = "s\<lparr>scoreBuf := pushScore score (scoreBuf s)\<rparr>"
  let ?avg = "average (scoreBuf ?s1)"
  let ?s6 = "recordEdge now (autoTuneStep env now
           (updateBox ov w h m mx my (updateActivation (c_sensitivity env) ?avg (trackRecent now ?avg ?s1))))"
  have st: "fst (analyze_scored env score m mx my w h now ov s) = fst (fireFrameDiff env now ?avg ?s6)"
    by (simp add: analyze_scored_state Let_def)
  have ev: "detections (snd (analyze_scored env score m mx my w h now ov s))
      = detections (snd (fireFrameDiff env now ?avg ?s6))"
    by (simp add: analyze_scored_events Let_def)
  have lf: "lastFire ?s6 = lastFire s" by simp
  from fireFrameDiff_fire[of env now ?avg ?s6] show ?thesis
    unfolding st ev lf .
qed

lemma analyze_fire:
  "(detections (snd (analyze t s)) = [] \<and> lastFire (fst (analyze t s)) = lastFire s)
   \<or> (detections (snd (analyze t s)) = [clock t] \<and> clock t - lastFire s > 5000
      \<and> lastFire (fst (analyze t s)) = clock t)"
proof (cases "scored_tick t s")
  case False
  from analyze_unscored[OF this] show ?thesis by simp
next
  case True
  from analyze_scored_tick[OF True] obtain score m mx my w h where
    a: "analyze t s =
     (fst (analyze_scored (analyzeEnv s) score m mx my w h (clock t) (overlayDims t) s)\<lparr>lastFrame := Some (currData t)\<rparr>,
      snd (analyze_scored (analyzeEnv s) score m mx my w h (clock t) (overlayDims t) s))" by blast
  from analyze_scored_fire[of "analyzeEnv s" score m mx my w h "clock t" "overlayDims t" s] show ?thesis
    by (simp add: a)
qed

lemma onScore_fire:
  "(detections (snd (onScore env score now s)) = [] \<and> lastFire (fst (onScore env score now s)) = lastFire s)
   \<or> (detections (snd (onScore env score now s)) = [now] \<and> now - lastFire s > 8000
      \<and> lastFire (fst (onScore env score now s)) = now)"
  by (simp add: onScore_def Let_def)

lemma step_fire:
  assumes "\<not> is_reset i"
  shows "(snd (step i s) = [] \<and> lastFire (fst (step i s)) = lastFire s)
   \<or> (\<exists>d. snd (step i s) = [d] \<and> snd d - lastFire s > cooldown (fst d) \<and> lastFire (fst (step i s)) = snd d)"
proof (cases i)
  case (Frame t)
  from analyze_fire[of t s] show ?thesis
    by (auto simp: step_def Frame split: prod.splits)
next
  case (EmbScore score now)
  show ?thesis
  proof (cases "detectorRef s")
    case None
    then show ?thesis by (simp add: step_def EmbScore)
  next
    case (Some r)
    show ?thesis
    proof (cases r)
      case Fallback
      with Some show ?thesis by (simp add: step_def EmbScore)
    next
      case (Live d)
      from onScore_fire[of "onScoreEnv d" score now s] show ?thesis
        by (auto simp: step_def EmbScore Some Live split: prod.splits)
    qed
  qed
next
  case (Reset now)
  with assms show ?thesis by simp
next
  case Effect
  show ?thesis by (simp add: step_def Effect runAnalyzeEffect_def)
qed

lemma run_Cons: "run (i # ins) s = (fst (run ins (fst (step i s))), snd (step i s) @ snd (run ins (fst (step i s))))"
  by (simp split: prod.splits)

lemma run_spaced:
  "list_all (\<lambda>i. \<not> is_reset i) ins \<Longrightarrow> spaced (lastFire s) (snd (run ins s))"
proof (induction ins arbitrary: s)
  case Nil
  show ?case by simp
next
  case (Cons i ins)
  then have nr: "\<not> is_reset i" and rest: "list_all (\<lambda>i. \<not> is_reset i) ins" by simp_all
  from Cons.IH[OF rest] have ih: "spaced (lastFire (fst (step i s))) (snd (run ins (fst (step i s))))" .
  from step_fire[OF nr, of s] show ?case
  proof
    assume "snd (step i s) = [] \<and> lastFire (fst (step i s)) = lastFire s"
    with ih show ?thesis by (simp add: run_Cons del: run.simps)
  next
    assume "\<exists>d. snd (step i s) = [d] \<and> snd d - lastFire s > cooldown (fst d) \<and> lastFire (fst (step i s)) = snd d"
    then obtain d where "snd (step i s) = [d]" "snd d - lastFire s > cooldown (fst d)"
      "lastFire (fst (step i s)) = snd d" by blast
    with ih show ?thesis by (simp add: run_Cons del: run.simps)
  qed
qed

lemma cooldown_pos: "0 < cooldown src"
  by (cases src) simp_all

lemma spaced_later:
  "spaced lf ds \<Longrightarrow> d \<in> set ds \<Longrightarrow> snd d - lf > cooldown (fst d)"
proof (induction ds arbitrary: lf)
  case Nil
  then show ?case by simp
next
  case (Cons e ds)
  show ?case
  proof (cases "d = e")
    case True
    with Cons.prems(1) show ?thesis by simp
  next
    case False
    with Cons.prems have "d \<in> set ds" "spaced (snd e) ds" "snd e - lf > cooldown (fst e)" by simp_all
    from Cons.IH[OF this(2) this(1)] this(3) cooldown_pos[of "fst e"] show ?thesis by linarith
  qed
qed

lemma spaced_pairwise:
  "spaced lf ds \<Longrightarrow> i < j \<Longrightarrow> j < length ds \<Longrightarrow> snd (ds ! j) - snd (ds ! i) > cooldown (fst (ds ! j))"
proof (induction ds arbitrary: lf i j)
  case Nil
  then show ?case by simp
next
  case (Cons e ds)
  from Cons.prems obtain j' where j: "j = Suc j'" "j' < length ds" by (cases j) auto
  from Cons.prems(1) have sp: "spaced (snd e) ds" by simp
  show ?case
  proof (cases i)
    case 0
    have "ds ! j' \<in> set ds" using j(2) by simp
    from spaced_later[OF sp this] show ?thesis by (simp add: 0 j)
  next
    case (Suc i')
    with Cons.prems j have "i' < j'" by simp
    from Cons.IH[OF sp this j(2)] show ?thesis by (simp add: Suc j)
  qed
qed

text \<open>
  Claim C1, as stated, keeps a cooldown per source, neither path depending on the other's
  last detection. The component has one \<^verbatim>\<open>lastFireRef\<close>, written by both paths (lines
  1430 and 1463) and read by both guards: a frame-diff tick at 102 s that would publish a
  detection is suppressed when the embedding path published one at 100 s, although the
  frame-diff path has not published any.
\<close>

theorem C1_independent_cooldown_counterexample:
  "detections (snd (onScore (first_render True) (9/10) 100000
      ((initial True)\<lparr>warmup := 6, sustain := 5, active := True, holdFrames := 8\<rparr>))) = [100000]
   \<and> detections (snd (analyze_scored (first_render True) (9/10) 0 0 0 160 90 102000 None
      (fst (onScore (first_render True) (9/10) 100000
        ((initial True)\<lparr>warmup := 6, sustain := 5, active := True, holdFrames := 8\<rparr>))))) = []
   \<and> detections (snd (analyze_scored (first_render True) (9/10) 0 0 0 160 90 102000 None
      ((initial True)\<lparr>warmup := 6, sustain := 5, active := True, holdFrames := 8\<rparr>))) = [102000]"
  by (simp add: analyze_scored_events_plain onScore_def first_render_def initial_def pushScore_def
      average_def updateActivation_def fl_lit_0_2 Let_def)

text \<open>
  Claim C1, amended: detections are rate limited against one last-fire time stamp shared by
  both paths. Between two resets, every detection published by the frame-diff path comes more
  than 5 s, and every detection published by the embedding path more than 8 s, after the
  detection published before it by either path (and after the last-fire time stamp the run
  started with); hence each detection comes more than its own path's cooldown after every
  earlier detection of the run, and any two frame-diff detections differ by more than 5 s.
\<close>

theorem C1_shared_cooldown:
  assumes "list_all (\<lambda>i. \<not> is_reset i) ins"
  shows "spaced (lastFire s) (snd (run ins s))
       \<and> (\<forall>i j. i < j \<and> j < length (snd (run ins s)) \<longrightarrow>
             snd (snd (run ins s) ! j) - snd (snd (run ins s) ! i) > cooldown (fst (snd (run ins s) ! j)))"
  using run_spaced[OF assms, of s] spaced_pairwise[of "lastFire s" "snd (run ins s)"]
  by blast

theorem C1_shared_cooldown_witness:
  "snd (run [EmbScore (9/10) 100000, EmbScore (9/10) 107000, Effect, EmbScore (9/10) 109000]
      ((initial True)\<lparr>warmup := 6, detectorRef := Some (Live \<lparr>running = True, timer = False,
          meanVector = None, sampleCount = 0, steps_started = 1, onScoreEnv = first_render True\<rparr>)\<rparr>))
     = [(Embedding, 100000), (Embedding, 109000)]
   \<and> spaced 0 (snd (run [EmbScore (9/10) 100000, EmbScore (9/10) 107000, Effect, EmbScore (9/10) 109000]
      ((initial True)\<lparr>warmup := 6, detectorRef := Some (Live \<lparr>running = True, timer = False,
          meanVector = None, sampleCount = 0, steps_started = 1, onScoreEnv = first_render True\<rparr>)\<rparr>)))
   \<and> spaced 0 (snd (run
      [EmbScore (9/10) 100000,
       Frame \<lparr>videoPresent = True, readyState = 4, videoWidth = 160, videoHeight = 90, ctxOk = True,
              currData = replicate 57600 255, clock = 106000, overlayDims = None\<rparr>]
      ((initial True)\<lparr>hasMedia := True, analyzing := True, warmup := 6,
         lastFrame := Some (replicate 57600 0)\<rparr>)))"
proof -
  let ?d = "\<lparr>running = True, timer = False, meanVector = None, sampleCount = 0, steps_started = 1,
    onScoreEnv = first_render True\<rparr>"
  let ?s0 = "(initial True)\<lparr>warmup := 6, detectorRef := Some (Live ?d)\<rparr>"
  let ?s1 = "fst (step (EmbScore (9/10) 100000) ?s0)"
  let ?s2 = "fst (step (EmbScore (9/10) 107000) ?s1)"
  let ?s3 = "fst (step Effect ?s2)"
  have e1: "step (EmbScore (9/10) 100000) ?s0
      = (?s0\<lparr>scoreBuf := [9/10], lastFire := 100000, detectCount := 1\<rparr>, [(Embedding, 100000)])"
    by (simp add: step_def onScore_def first_render_def initial_def pushScore_def average_def
        fl_lit_0_2 Let_def)
  have e2: "step (EmbScore (9/10) 107000) (?s0\<lparr>scoreBuf := [9/10], lastFire := 100000, detectCount := 1\<rparr>)
      = (?s0\<lparr>scoreBuf := [9/10, 9/10], lastFire := 100000, detectCount := 1\<rparr>, [])"
    by (simp add: step_def onScore_def first_render_def initial_def pushScore_def average_def
        fl_lit_0_2 Let_def)
  have e3: "step Effect (?s0\<lparr>scoreBuf := [9/10, 9/10], lastFire := 100000, detectCount := 1\<rparr>)
      = (?s0\<lparr>scoreBuf := [9/10, 9/10], lastFire := 100000, detectCount := 1,
            analyzeEnv := capture (?s0\<lparr>scoreBuf := [9/10, 9/10], lastFire := 100000, detectCount := 1\<rparr>),
            lastFrame := None\<rparr>, [])"
    by (simp add: step_def runAnalyzeEffect_def)
  have e4: "snd (step (EmbScore (9/10) 109000) (?s0\<lparr>scoreBuf := [9/10, 9/10], lastFire := 100000, detectCount := 1,
            analyzeEnv := capture (?s0\<lparr>scoreBuf := [9/10, 9/10], lastFire := 100000, detectCount := 1\<rparr>),
            lastFrame := None\<rparr>))
      = [(Embedding, 109000)]"
    by (simp add: step_def onScore_def first_render_def initial_def pushScore_def average_def
        fl_lit_0_2 Let_def)
  have r: "snd (run [EmbScore (9/10) 100000, EmbScore (9/10) 107000, Effect, EmbScore (9/10) 109000] ?s0)
      = [(Embedding, 100000), (Embedding, 109000)]"
    by (simp only: run_Cons run.simps e1 e2 e3 e4 fst_conv snd_conv append.simps)
  have l: "lastFire ?s0 = 0" by (simp add: initial_def)
  from r l show ?thesis
    using C1_shared_cooldown [of "[EmbScore (9/10) 100000, EmbScore (9/10) 107000, Effect, EmbScore (9/10) 109000]" ?s0]
      C1_shared_cooldown [of "[EmbScore (9/10) 100000,
       Frame \<lparr>videoPresent = True, readyState = 4, videoWidth = 160, videoHeight = 90, ctxOk = True,
              currData = replicate 57600 255, clock = 106000, overlayDims = None\<rparr>]"
      "(initial True)\<lparr>hasMedia := True, analyzing := True, warmup := 6,
         lastFrame := Some (replicate 57600 0)\<rparr>"]
    by (simp add: initial_def del: run.simps)
qed

section \<open>Score ranges\<close>

lemma saliency_score_range: "0 \<le> saliency_score diff w h \<and> saliency_score diff w h \<le> 1"
  by (simp add: saliency_score_def Let_def)

lemma cosine_fold:
  fixes a b :: "real list"
  shows "fold (\<lambda>i (dot, na, nb). let x = a ! i; y = b ! i in (dot + x * y, na + x * x, nb + y * y))
        [0..<n] (d, p, q)
   = (d + (\<Sum>i<n. a ! i * b ! i), p + (\<Sum>i<n. a ! i * a ! i), q + (\<Sum>i<n. b ! i * b ! i))"
  by (induction n) (simp_all add: Let_def)

lemma cosineDistance_sums:
  "cosineDistance a b =
     1 - (\<Sum>i<length a. a ! i * b ! i)
         / (sqrt (\<Sum>i<length a. a ! i * a ! i) * sqrt (\<Sum>i<length a. b ! i * b ! i) + 1 / 10 ^ 8)"
  by (simp add: cosineDistance_def cosine_fold)

lemma cauchy_step:
  fixes D A B x y :: real
  assumes D: "D\<^sup>2 \<le> A * B" and A: "0 \<le> A" and B: "0 \<le> B"
  shows "(D + x * y)\<^sup>2 \<le> (A + x * x) * (B + y * y)"
proof -
  have h1: "(D * x * y)\<^sup>2 \<le> (A * B) * (x * y)\<^sup>2"
  proof -
    have "(D * x * y)\<^sup>2 = D\<^sup>2 * (x * y)\<^sup>2" by (simp add: power_mult_distrib mult.assoc)
    also have "\<dots> \<le> (A * B) * (x * y)\<^sup>2" by (rule mult_right_mono[OF D]) simp
    finally show ?thesis .
  qed
  have "(A * y\<^sup>2 + B * x\<^sup>2)\<^sup>2 - 4 * ((A * B) * (x * y)\<^sup>2) = (A * y\<^sup>2 - B * x\<^sup>2)\<^sup>2"
    by (simp add: power2_eq_square algebra_simps)
  then have h2: "4 * ((A * B) * (x * y)\<^sup>2) \<le> (A * y\<^sup>2 + B * x\<^sup>2)\<^sup>2"
    using zero_le_power2[of "A * y\<^sup>2 - B * x\<^sup>2"] by linarith
  have "(2 * (D * x * y))\<^sup>2 = 4 * (D * x * y)\<^sup>2" by (simp add: power_mult_distrib)
  with h1 h2 have "(2 * (D * x * y))\<^sup>2 \<le> (A * y\<^sup>2 + B * x\<^sup>2)\<^sup>2" by linarith
  moreover have "0 \<le> A * y\<^sup>2 + B * x\<^sup>2" using A B by simp
  ultimately have "2 * (D * x * y) \<le> A * y\<^sup>2 + B * x\<^sup>2" by (rule power2_le_imp_le)
  moreover have "(D + x * y)\<^sup>2 = D\<^sup>2 + 2 * (D * x * y) + (x * y)\<^sup>2"
    by (simp add: power2_eq_square algebra_simps)
  moreover have "(A + x * x) * (B + y * y) = A * B + (A * y\<^sup>2 + B * x\<^sup>2) + (x * y)\<^sup>2"
    by (simp add: power2_eq_square algebra_simps)
  ultimately show ?thesis using D by linarith
qed

lemma cauchy_schwarz_upto:
  fixes f g :: "nat \<Rightarrow> real"
  shows "(\<Sum>i<n. f i * g i)\<^sup>2 \<le> (\<Sum>i<n. f i * f i) * (\<Sum>i<n. g i * g i)"
proof (induction n)
  case 0
  show ?case by simp
next
  case (Suc n)
  have "0 \<le> (\<Sum>i<n. f i * f i)" "0 \<le> (\<Sum>i<n. g i * g i)" by (simp_all add: sum_nonneg)
  from cauchy_step[OF Suc.IH this, of "f n" "g n"] show ?case by simp
qed

lemma cosine_quotient:
  fixes f g :: "nat \<Rightarrow> real"
  shows "\<bar>(\<Sum>i<n. f i * g i) / (sqrt (\<Sum>i<n. f i * f i) * sqrt (\<Sum>i<n. g i * g i) + 1 / 10 ^ 8)\<bar> < 1"
proof -
  let ?D = "\<Sum>i<n. f i * g i" and ?A = "\<Sum>i<n. f i * f i" and ?B = "\<Sum>i<n. g i * g i"
  have "\<bar>?D\<bar> = sqrt (?D\<^sup>2)" by simp
  also have "\<dots> \<le> sqrt (?A * ?B)" using cauchy_schwarz_upto[of f g n] by (simp only: real_sqrt_le_iff)
  also have "\<dots> = sqrt ?A * sqrt ?B" by (rule real_sqrt_mult)
  finally have le: "\<bar>?D\<bar> \<le> sqrt ?A * sqrt ?B" .
  have pos: "0 \<le> sqrt ?A * sqrt ?B" by (simp add: sum_nonneg)
  have eps: "(0::real) < 1 / 10 ^ 8" by simp
  from le pos eps have "\<bar>?D\<bar> < sqrt ?A * sqrt ?B + 1 / 10 ^ 8" "0 < sqrt ?A * sqrt ?B + 1 / 10 ^ 8"
    by linarith+
  then show ?thesis by (simp only: abs_divide abs_of_pos divide_less_eq_1_pos)
qed

lemma cosineDistance_range: "0 < cosineDistance a b \<and> cosineDistance a b < 2"
  using cosine_quotient[of "\<lambda>i. a ! i" "\<lambda>i. b ! i" "length a"]
  unfolding cosineDistance_sums by linarith

lemma cosineDistance_nonneg_le_1:
  assumes "\<forall>i<length a. 0 \<le> a ! i \<and> 0 \<le> b ! i"
  shows "cosineDistance a b \<le> 1"
proof -
  have "0 \<le> (\<Sum>i<length a. a ! i * b ! i)" using assms by (intro sum_nonneg mult_nonneg_nonneg) auto
  moreover have "0 \<le> sqrt (\<Sum>i<length a. a ! i * a ! i) * sqrt (\<Sum>i<length a. b ! i * b ! i) + 1 / 10 ^ 8"
    by (simp add: sum_nonneg)
  ultimately have "0 \<le> (\<Sum>i<length a. a ! i * b ! i)
         / (sqrt (\<Sum>i<length a. a ! i * a ! i) * sqrt (\<Sum>i<length a. b ! i * b ! i) + 1 / 10 ^ 8)"
    by (rule divide_nonneg_nonneg)
  then show ?thesis unfolding cosineDistance_sums by linarith
qed

lemma average_range:
  assumes "\<forall>x\<in>set buf. 0 \<le> x \<and> x \<le> 1" "buf \<noteq> []"
  shows "0 \<le> average buf \<and> average buf \<le> 1"
proof -
  have "0 \<le> sum_list buf" using assms(1) by (simp add: sum_list_nonneg)
  moreover have "sum_list buf \<le> real (length buf)" using assms(1)
    by (induction buf) auto
  moreover have "0 < real (length buf)" using assms(2) by simp
  ultimately show ?thesis by (simp add: average_mean)
qed

subsection \<open>The block loops add up the whole frame\<close>

lemma scan_fold_diff:
  "fst (fold (scan_step cur prev w h) ps acc)
     = fst acc + (\<Sum>p\<leftarrow>ps. block_sum cur prev w h (snd p) (fst p))"
proof (induction ps arbitrary: acc)
  case Nil
  show ?case by simp
next
  case (Cons p ps)
  obtain d m x y where acc: "acc = (d, m, x, y)" by (metis prod_cases4)
  obtain r c where p: "p = (r, c)" by (cases p)
  have "fst (scan_step cur prev w h p acc) = fst acc + block_sum cur prev w h (snd p) (fst p)"
    by (simp add: scan_step_def acc p Let_def)
  with Cons.IH[of "scan_step cur prev w h p acc"] show ?case by simp
qed

lemma sum_list_product:
  fixes f :: "'a \<Rightarrow> 'b \<Rightarrow> int"
  shows "(\<Sum>p\<leftarrow>List.product xs ys. f (fst p) (snd p)) = (\<Sum>x\<leftarrow>xs. \<Sum>y\<leftarrow>ys. f x y)"
  by (induction xs) (simp_all add: o_def)

lemma sum_list_origins:
  fixes G :: "nat \<Rightarrow> int"
  shows "(\<Sum>b\<leftarrow>block_origins n. G b) = (\<Sum>k<(n + 7) div 8. G (k * 8))"
  by (simp add: block_origins_def o_def interv_sum_list_conv_sum_set_nat lessThan_atLeast0)

lemma block_sum_sets:
  "block_sum cur prev w h bx r =
     (\<Sum>y\<in>{r..<min (r + 8) h}. \<Sum>x\<in>{bx..<min (bx + 8) w}. px_diff cur prev ((y * w + x) * 4))"
  by (simp add: block_sum_def interv_sum_list_conv_sum_set_nat)

lemma chunks_upto:
  fixes F :: "nat \<Rightarrow> int"
  shows "(\<Sum>k<m. \<Sum>y\<in>{k * 8..<min (k * 8 + 8) n}. F y) = (\<Sum>y<min (m * 8) n. F y)"
proof (induction m)
  case 0
  show ?case by simp
next
  case (Suc m)
  show ?case
  proof (cases "m * 8 \<le> n")
    case True
    then have "(\<Sum>y<min (m * 8) n. F y) = sum F {0..<m * 8}" by (simp add: lessThan_atLeast0)
    moreover have "sum F {0..<m * 8} + sum F {m * 8..<min (m * 8 + 8) n} = sum F {0..<min (m * 8 + 8) n}"
      using True by (intro sum.atLeastLessThan_concat) simp_all
    ultimately show ?thesis using Suc.IH by (simp add: lessThan_atLeast0 add.commute)
  next
    case False
    then have "{m * 8..<min (m * 8 + 8) n} = {}" "min (m * 8) n = n" "min (Suc m * 8) n = n" by auto
    with Suc.IH show ?thesis by simp
  qed
qed

lemma chunks_all:
  fixes F :: "nat \<Rightarrow> int"
  shows "(\<Sum>k<(n + 7) div 8. \<Sum>y\<in>{k * 8..<min (k * 8 + 8) n}. F y) = (\<Sum>y<n. F y)"
proof -
  have "n \<le> (n + 7) div 8 * 8" by presburger
  then have "min ((n + 7) div 8 * 8) n = n" by simp
  with chunks_upto[of F n "(n + 7) div 8"] show ?thesis by simp
qed

lemma scan_blocks_diff:
  "fst (scan_blocks cur prev w h) = (\<Sum>y<h. \<Sum>x<w. px_diff cur prev ((y * w + x) * 4))"
proof -
  let ?f = "\<lambda>y x. px_diff cur prev ((y * w + x) * 4)"
  have "fst (scan_blocks cur prev w h)
      = (\<Sum>p\<leftarrow>List.product (block_origins h) (block_origins w). block_sum cur prev w h (snd p) (fst p))"
    by (simp add: scan_blocks_def scan_fold_diff)
  also have "\<dots> = (\<Sum>r\<leftarrow>block_origins h. \<Sum>c\<leftarrow>block_origins w. block_sum cur prev w h c r)"
    by (rule sum_list_product)
  also have "\<dots> = (\<Sum>k<(h + 7) div 8. \<Sum>j<(w + 7) div 8. block_sum cur prev w h (j * 8) (k * 8))"
    by (simp add: sum_list_origins)
  also have "\<dots> = (\<Sum>k<(h + 7) div 8. \<Sum>j<(w + 7) div 8.
        \<Sum>y\<in>{k * 8..<min (k * 8 + 8) h}. \<Sum>x\<in>{j * 8..<min (j * 8 + 8) w}. ?f y x)"
    by (simp only: block_sum_sets)
  also have "\<dots> = (\<Sum>k<(h + 7) div 8. \<Sum>y\<in>{k * 8..<min (k * 8 + 8) h}.
        \<Sum>j<(w + 7) div 8. \<Sum>x\<in>{j * 8..<min (j * 8 + 8) w}. ?f y x)"
    by (intro sum.cong refl sum.swap)
  also have "\<dots> = (\<Sum>k<(h + 7) div 8. \<Sum>y\<in>{k * 8..<min (k * 8 + 8) h}. \<Sum>x<w. ?f y x)"
    by (simp only: chunks_all)
  also have "\<dots> = (\<Sum>y<h. \<Sum>x<w. ?f y x)"
    by (rule chunks_all)
  finally show ?thesis .
qed

lemma analyze_scoreBuf:
  assumes "scored_tick t s" and "lastFrame s = Some prev"
  shows "scoreBuf (fst (analyze t s)) =
     pushScore (saliency_score (fst (scan_blocks (currData t) prev 160 (frame_height 160 (videoWidth t) (videoHeight t))))
                 160 (frame_height 160 (videoWidth t) (videoHeight t)))
       (scoreBuf s)"
  using assms
  by (simp add: scored_tick_def analyze_def Let_def case_prod_beta analyze_scored_scoreBuf)

lemma det_step_score:
  assumes "det_step (Inr emb) d = (d', Some sc)"
  shows "0 \<le> sc \<and> sc < 2"
proof (cases "meanVector d")
  case None
  with assms show ?thesis by (simp add: det_step_def split: if_splits)
next
  case (Some m)
  with assms have "sc = cosineDistance emb m" by (auto simp: det_step_def Let_def split: if_splits)
  with cosineDistance_range[of emb m] show ?thesis by simp
qed

lemma det_step_first:
  "running d \<Longrightarrow> meanVector d = None \<Longrightarrow> snd (det_step (Inr emb) d) = Some 0"
  by (simp add: det_step_def)

lemma det_step_later:
  "running d \<Longrightarrow> meanVector d = Some m \<Longrightarrow> snd (det_step (Inr emb) d) = Some (cosineDistance emb m)"
  by (simp add: det_step_def Let_def)

lemma embeddingTick_scoreBuf:
  assumes "detectorRef s = Some (Live d)" "running d" "6 \<le> warmup s"
  shows "\<exists>sc. snd (det_step (Inr emb) d) = Some sc \<and> 0 \<le> sc \<and> sc < 2
     \<and> scoreBuf (fst (embeddingTick (Inr emb) now s)) = pushScore sc (scoreBuf s)"
proof -
  from assms(2) obtain d' sc where st: "det_step (Inr emb) d = (d', Some sc)"
    by (cases "meanVector d") (auto simp: det_step_def Let_def)
  from det_step_score[OF st] have r: "0 \<le> sc \<and> sc < 2" .
  have "scoreBuf (fst (embeddingTick (Inr emb) now s))
      = scoreBuf (fst (onScore (onScoreEnv d') sc now (s\<lparr>detectorRef := Some (Live d')\<rparr>)))"
    using assms(1) st by (simp add: embeddingTick_def)
  also have "\<dots> = pushScore sc (scoreBuf s)"
    using onScore_scoreBuf[of "s\<lparr>detectorRef := Some (Live d')\<rparr>" "onScoreEnv d'" sc now] assms(3)
    by simp
  finally show ?thesis using st r by simp
qed

text \<open>
  Claim C2, as stated, bounds the scores of both paths by 1. The embedding score is the
  cosine distance \<open>1 - dot / (|a| |b| + \<epsilon>)\<close> and is passed to the callback as it is, with
  no clamp; it exceeds 1 as soon as the dot product is negative: after a first embedding
  \<open>[-1]\<close>, the embedding \<open>[1]\<close> scores \<open>200000001 / 100000001\<close>, almost 2.
\<close>

theorem C2_embedding_score_counterexample:
  "snd (det_step (Inr [1]) (fst (det_step (Inr [-1])
     \<lparr>running = True, timer = False, meanVector = None, sampleCount = 0, steps_started = 1,
      onScoreEnv = first_render True\<rparr>)))
     = Some (200000001 / 100000001)
   \<and> (200000001 / 100000001 :: real) > 1"
  by (simp add: det_step_def cosineDistance_def Let_def)


text \<open>
  Claim C2, amended: the saliency score of a scored tick is the difference summed over all
  pixels and the three colour channels of the frame, divided by
  \<open>width \<times> height \<times> 3 \<times> 255\<close>, times the gain 4 (both in double arithmetic), clamped to
  \<open>[0, 1]\<close>, so it lies in \<open>[0, 1]\<close>. The embedding score is not clamped: every score the
  detector hands to its callback, the embedding being as long as the running mean, lies in
  \<open>[0, 2]\<close>; the first one, which seeds the running mean, is 0, each later one is the cosine
  distance of the embedding to the running mean, and it is at most 1 when no component of
  the embedding or of the running mean is negative. After the warm-up the component pushes
  that score, as it is, to the rolling buffer. The mean of a buffer of scores in \<open>[0, 1]\<close>
  is in \<open>[0, 1]\<close>.
\<close>

theorem C2_score_ranges:
  "0 \<le> saliency_score diff w h \<and> saliency_score diff w h \<le> 1
   \<and> (scored_tick t s \<and> lastFrame s = Some prev \<longrightarrow>
        (let h = frame_height 160 (videoWidth t) (videoHeight t);
             total = (\<Sum>y<h. \<Sum>x<160. px_diff (currData t) prev ((y * 160 + x) * 4));
             score = min 1 (max 0 (fl (fl (real_of_int total / real (160 * h * 3 * 255)) * 4)))
         in 0 \<le> score \<and> score \<le> 1 \<and> scoreBuf (fst (analyze t s)) = pushScore score (scoreBuf s)))
   \<and> (det_step (Inr emb) d = (d', Some sc) \<and> (\<forall>v. meanVector d = Some v \<longrightarrow> length emb = length v)
        \<longrightarrow> 0 \<le> sc \<and> sc \<le> 2)
   \<and> (running d \<and> meanVector d = None \<longrightarrow> snd (det_step (Inr emb) d) = Some 0)
   \<and> (running d \<and> meanVector d = Some m \<and> length emb = length m \<longrightarrow>
        snd (det_step (Inr emb) d) = Some (cosineDistance emb m))
   \<and> (running d \<and> meanVector d = Some m \<and> length emb = length m
        \<and> (\<forall>x\<in>set emb. 0 \<le> x) \<and> (\<forall>y\<in>set m. 0 \<le> y) \<longrightarrow>
        snd (det_step (Inr emb) d) = Some (cosineDistance emb m) \<and> cosineDistance emb m \<le> 1)
   \<and> (detectorRef s = Some (Live d) \<and> running d \<and> 6 \<le> warmup s
        \<and> (\<forall>v. meanVector d = Some v \<longrightarrow> length emb = length v) \<longrightarrow>
        (\<exists>x. snd (det_step (Inr emb) d) = Some x \<and> 0 \<le> x \<and> x \<le> 2
           \<and> scoreBuf (fst (embeddingTick (Inr emb) now s)) = pushScore x (scoreBuf s)))
   \<and> ((\<forall>x\<in>set buf. 0 \<le> x \<and> x \<le> 1) \<and> buf \<noteq> [] \<longrightarrow> 0 \<le> average buf \<and> average buf \<le> 1)"
proof -
  have tick: "let h = frame_height 160 (videoWidth t) (videoHeight t);
             total = (\<Sum>y<h. \<Sum>x<160. px_diff (currData t) prev ((y * 160 + x) * 4));
             score = min 1 (max 0 (fl (fl (real_of_int total / real (160 * h * 3 * 255)) * 4)))
         in 0 \<le> score \<and> score \<le> 1 \<and> scoreBuf (fst (analyze t s)) = pushScore score (scoreBuf s)"
    if "scored_tick t s \<and> lastFrame s = Some prev"
  proof -
    from that have "scoreBuf (fst (analyze t s)) =
       pushScore (saliency_score (fst (scan_blocks (currData t) prev 160 (frame_height 160 (videoWidth t) (videoHeight t))))
                 160 (frame_height 160 (videoWidth t) (videoHeight t))) (scoreBuf s)"
      using analyze_scoreBuf by blast
    then show ?thesis
      unfolding scan_blocks_diff by (simp add: saliency_score_def Let_def)
  qed
  have emitted: "0 \<le> sc \<and> sc \<le> 2"
    if "det_step (Inr emb) d = (d', Some sc) \<and> (\<forall>v. meanVector d = Some v \<longrightarrow> length emb = length v)"
    using det_step_score[of emb d d' sc] that by simp
  have first: "snd (det_step (Inr emb) d) = Some 0" if "running d \<and> meanVector d = None"
    using that det_step_first by blast
  have later: "snd (det_step (Inr emb) d) = Some (cosineDistance emb m)"
    if "running d \<and> meanVector d = Some m \<and> length emb = length m"
    using that det_step_later by blast
  have nn: "snd (det_step (Inr emb) d) = Some (cosineDistance emb m) \<and> cosineDistance emb m \<le> 1"
    if "running d \<and> meanVector d = Some m \<and> length emb = length m
        \<and> (\<forall>x\<in>set emb. 0 \<le> x) \<and> (\<forall>y\<in>set m. 0 \<le> y)"
  proof -
    from that have "\<forall>i<length emb. 0 \<le> emb ! i \<and> 0 \<le> m ! i" by simp
    then have "cosineDistance emb m \<le> 1" by (rule cosineDistance_nonneg_le_1)
    with that det_step_later[of d m emb] show ?thesis by simp
  qed
  have pushed: "\<exists>x. snd (det_step (Inr emb) d) = Some x \<and> 0 \<le> x \<and> x \<le> 2
           \<and> scoreBuf (fst (embeddingTick (Inr emb) now s)) = pushScore x (scoreBuf s)"
    if "detectorRef s = Some (Live d) \<and> running d \<and> 6 \<le> warmup s
        \<and> (\<forall>v. meanVector d = Some v \<longrightarrow> length emb = length v)"
  proof -
    from that embeddingTick_scoreBuf[of s d emb now] obtain x where
      "snd (det_step (Inr emb) d) = Some x \<and> 0 \<le> x \<and> x < 2
         \<and> scoreBuf (fst (embeddingTick (Inr emb) now s)) = pushScore x (scoreBuf s)" by blast
    then have "snd (det_step (Inr emb) d) = Some x \<and> 0 \<le> x \<and> x \<le> 2
         \<and> scoreBuf (fst (embeddingTick (Inr emb) now s)) = pushScore x (scoreBuf s)" by simp
    then show ?thesis by blast
  qed
  from saliency_score_range[of diff w h] tick emitted first later nn pushed average_range[of buf]
  show ?thesis by blast
qed

theorem C2_score_ranges_witness:
  "snd (det_step (Inr [1, 0]) \<lparr>running = True, timer = False, meanVector = None, sampleCount = 0,
      steps_started = 1, onScoreEnv = first_render True\<rparr>) = Some 0
   \<and> snd (det_step (Inr [1, 0]) \<lparr>running = True, timer = False, meanVector = Some [0, 1],
      sampleCount = 1, steps_started = 1, onScoreEnv = first_render True\<rparr>)
       = Some (cosineDistance [1, 0] [0, 1])
   \<and> cosineDistance [1, 0] [0, 1] \<le> 1 \<and> 0 \<le> cosineDistance [1, 0] [0, 1]
   \<and> (\<exists>x. 0 \<le> x \<and> x \<le> 2 \<and>
        scoreBuf (fst (embeddingTick (Inr [1, 0]) 20000
          ((initial True)\<lparr>warmup := 6, detectorRef := Some (Live \<lparr>running = True, timer = False,
             meanVector = Some [0, 1], sampleCount = 1, steps_started = 1,
             onScoreEnv = first_render True\<rparr>)\<rparr>))) = pushScore x [])
   \<and> 0 \<le> average [1/2, 1] \<and> average [1/2, 1] \<le> 1
   \<and> (\<exists>score. 0 \<le> score \<and> score \<le> 1 \<and>
        scoreBuf (fst (analyze
          \<lparr>videoPresent = True, readyState = 4, videoWidth = 160, videoHeight = 90, ctxOk = True,
           currData = replicate 57600 255, clock = 20000, overlayDims = None\<rparr>
          ((initial True)\<lparr>hasMedia := True, analyzing := True, warmup := 6,
             lastFrame := Some (replicate 57600 0)\<rparr>))) = pushScore score [])"
proof -
  let ?t = "\<lparr>videoPresent = True, readyState = 4, videoWidth = 160, videoHeight = 90, ctxOk = True,
           currData = replicate 57600 255, clock = 20000, overlayDims = None\<rparr>"
  let ?s = "(initial True)\<lparr>hasMedia := True, analyzing := True, warmup := 6,
             lastFrame := Some (replicate 57600 0)\<rparr>"
  let ?fresh = "\<lparr>running = True, timer = False, meanVector = None, sampleCount = 0,
      steps_started = 1, onScoreEnv = first_render True\<rparr>"
  let ?d = "\<lparr>running = True, timer = False, meanVector = Some [0, 1],
      sampleCount = 1, steps_started = 1, onScoreEnv = first_render True\<rparr>"
  let ?e = "(initial True)\<lparr>warmup := 6, detectorRef := Some (Live ?d)\<rparr>"
  note c = C2_score_ranges [where t = ?t and s = ?s and prev = "replicate 57600 0"
      and emb = "[1, 0]" and m = "[0, 1]" and d = ?d and buf = "[1/2, 1]"
      and d' = "fst (det_step (Inr [1, 0]) ?d)" and sc = "cosineDistance [1, 0] [0, 1]"]
  note c0 = C2_score_ranges [where emb = "[1, 0]" and d = ?fresh]
  note ce = C2_score_ranges [where emb = "[1, 0]" and d = ?d and s = ?e and now = 20000]
  have hyp: "scored_tick ?t ?s \<and> lastFrame ?s = Some (replicate 57600 0)"
    by (simp add: scored_tick_def initial_def)
  have sb: "scoreBuf ?s = []" by (simp add: initial_def)
  from c hyp have "\<exists>score. 0 \<le> score \<and> score \<le> 1 \<and> scoreBuf (fst (analyze ?t ?s)) = pushScore score (scoreBuf ?s)"
    unfolding Let_def by blast
  then have e: "\<exists>score. 0 \<le> score \<and> score \<le> 1 \<and> scoreBuf (fst (analyze ?t ?s)) = pushScore score []"
    unfolding sb .
  have r0: "running ?fresh \<and> meanVector ?fresh = None" by simp
  from c0 r0 have f: "snd (det_step (Inr [1, 0]) ?fresh) = Some 0" by blast
  have l: "running ?d \<and> meanVector ?d = Some [0, 1] \<and> length [1, 0 :: real] = length [0, 1 :: real]
      \<and> (\<forall>x\<in>set [1, 0 :: real]. 0 \<le> x) \<and> (\<forall>y\<in>set [0, 1 :: real]. 0 \<le> y)"
    by simp
  from c l have n: "snd (det_step (Inr [1, 0]) ?d) = Some (cosineDistance [1, 0] [0, 1])
      \<and> cosineDistance [1, 0] [0, 1] \<le> 1" by blast
  then have "det_step (Inr [1, 0]) ?d = (fst (det_step (Inr [1, 0]) ?d), Some (cosineDistance [1, 0] [0, 1]))"
    by (simp add: prod_eq_iff)
  moreover have "\<forall>v. meanVector ?d = Some v \<longrightarrow> length [1, 0 :: real] = length v" by simp
  ultimately have p: "0 \<le> cosineDistance [1, 0] [0, 1]" using c by blast
  have h: "detectorRef ?e = Some (Live ?d) \<and> running ?d \<and> 6 \<le> warmup ?e
      \<and> (\<forall>v. meanVector ?d = Some v \<longrightarrow> length [1, 0 :: real] = length v)"
    by (simp add: initial_def)
  have se: "scoreBuf ?e = []" by (simp add: initial_def)
  from ce h have "\<exists>x. 0 \<le> x \<and> x \<le> 2
      \<and> scoreBuf (fst (embeddingTick (Inr [1, 0]) 20000 ?e)) = pushScore x (scoreBuf ?e)" by blast
  then have t: "\<exists>x. 0 \<le> x \<and> x \<le> 2
      \<and> scoreBuf (fst (embeddingTick (Inr [1, 0]) 20000 ?e)) = pushScore x []"
    unfolding se .
  have b: "(\<forall>x\<in>set [1/2, 1 :: real]. 0 \<le> x \<and> x \<le> 1) \<and> [1/2, 1 :: real] \<noteq> []" by simp
  from c b have a: "0 \<le> average [1/2, 1] \<and> average [1/2, 1] \<le> 1" by blast
  from f n p t a e show ?thesis by blast
qed

end
